theory Spec2Isabelle
  imports Main
begin

section \<open>JavaScript values used by both files\<close>

text \<open>
  An optional property of type \<open>boolean | undefined\<close> is a \<open>bool option\<close>, with
  \<open>None\<close> for \<open>undefined\<close>. The operator \<open>a || b\<close> returns \<open>a\<close> when \<open>a\<close> is truthy
  and \<open>b\<close> otherwise; \<open>!!a\<close> is the truthiness of \<open>a\<close>.
\<close>

definition js_or :: "bool option \<Rightarrow> bool option \<Rightarrow> bool option" where
  "js_or a b = (if a = Some True then a else b)"

definition truthy :: "bool option \<Rightarrow> bool" where
  "truthy a = (a = Some True)"

text \<open>\<open>s || null\<close> on an optional string: the empty string is falsy.\<close>

definition or_null :: "string option \<Rightarrow> string option" where
  "or_null s = (case s of None \<Rightarrow> None | Some v \<Rightarrow> (if v = [] then None else Some v))"

text \<open>A rejected promise or a thrown exception is a value of this type.\<close>

datatype error =
    Rejected string
  | SyntaxError string

type_synonym URI = string

section \<open>webExtensionManagementService.ts\<close>

subsection \<open>Data\<close>

record IExtensionIdentifier =
  ext_id :: string
  uuid :: "string option"

datatype ExtensionType = System | User

text \<open>
  Modelled from the spec: the enum \<open>InstallOperation\<close> is declared in
  \<open>vs/platform/extensionManagement/common/extensionManagement\<close>, which is not part of
  the sources at hand; the specification names the operation kinds \<open>Install\<close> and
  \<open>Update\<close>.
\<close>

datatype InstallOperation = Install | Update

text \<open>
  \<open>Metadata\<close>: every property is optional. Only the properties that the file reads or
  writes are kept.
\<close>

record Metadata =
  md_id :: "string option"
  publisherId :: "string option"
  publisherDisplayName :: "string option"
  isApplicationScoped :: "bool option"
  isMachineScoped :: "bool option"
  isBuiltin :: "bool option"
  isSystem :: "bool option"
  updated :: "bool option"
  preRelease :: "bool option"
  installedTimestamp :: "nat option"
  isPreReleaseVersion :: "bool option"

text \<open>The object literal \<open>{}\<close>.\<close>

definition empty_metadata :: Metadata where
  "empty_metadata =
     \<lparr>md_id = None, publisherId = None, publisherDisplayName = None,
      isApplicationScoped = None, isMachineScoped = None, isBuiltin = None,
      isSystem = None, updated = None, preRelease = None, installedTimestamp = None,
      isPreReleaseVersion = None\<rparr>"

record InstallOptions =
  opt_isBuiltin :: "bool option"
  opt_isMachineScoped :: "bool option"
  opt_installPreReleaseVersion :: "bool option"
  opt_operation :: "InstallOperation option"

record IExtensionManifest =
  manifest_publisher :: string
  manifest_name :: string

text \<open>\<open>IScannedExtension\<close>: an \<open>IExtension\<close> with its optional \<open>metadata\<close>.\<close>

record IScannedExtension =
  ext_type :: ExtensionType
  ext_isBuiltin :: bool
  ext_identifier :: IExtensionIdentifier
  ext_manifest :: IExtensionManifest
  ext_location :: URI
  ext_metadata :: "Metadata option"

record IGalleryExtension =
  gallery_identifier :: IExtensionIdentifier
  gallery_publisherId :: string
  gallery_publisherDisplayName :: string
  gallery_isPreReleaseVersion :: bool

datatype TargetPlatform = WEB

record ILocalExtension =
  local_type :: ExtensionType
  local_isBuiltin :: bool
  local_identifier :: IExtensionIdentifier
  local_manifest :: IExtensionManifest
  local_location :: URI
  local_metadata :: "Metadata option"
  local_isMachineScoped :: bool
  local_isApplicationScoped :: bool
  local_publisherId :: "string option"
  local_publisherDisplayName :: "string option"
  local_installedTimestamp :: "nat option"
  local_isPreReleaseVersion :: bool
  local_preRelease :: bool
  local_targetPlatform :: TargetPlatform
  local_updated :: bool

text \<open>\<open>URI | IGalleryExtension\<close>, told apart by \<open>URI.isUri\<close>.\<close>

datatype InstallSource = FromLocation URI | FromGallery IGalleryExtension

text \<open>
  The collaborator \<open>IWebExtensionsScannerService\<close> owns the installed store. Its
  methods are parameters: each takes the store \<open>'st\<close> and returns its (possibly
  rejected) result with the store after the call.
\<close>

record 'st IWebExtensionsScannerService =
  scanUserExtensions :: "'st \<Rightarrow> (error + IScannedExtension list) \<times> 'st"
  addExtension :: "URI \<Rightarrow> Metadata \<Rightarrow> 'st \<Rightarrow> (error + IScannedExtension) \<times> 'st"
  addExtensionFromGallery ::
    "IGalleryExtension \<Rightarrow> Metadata \<Rightarrow> 'st \<Rightarrow> (error + IScannedExtension) \<times> 'st"
  removeExtension :: "IExtensionIdentifier \<Rightarrow> 'st \<Rightarrow> (error + unit) \<times> 'st"

subsection \<open>canInstall, getCompatibleVersion, updateMetadata\<close>

text \<open>
  \<open>getUserConfiguredExtensionKind\<close> of the manifest properties service returns an array
  of extension kinds or \<open>undefined\<close>; an array, even an empty one, is truthy.
\<close>

definition isConfiguredToExecuteOnWeb ::
  "(IExtensionIdentifier \<Rightarrow> string list option) \<Rightarrow> IGalleryExtension \<Rightarrow> bool" where
  "isConfiguredToExecuteOnWeb getUserConfiguredExtensionKind gallery =
     (case getUserConfiguredExtensionKind (gallery_identifier gallery) of
        None \<Rightarrow> False
      | Some configuredExtensionKind \<Rightarrow> ''web'' \<in> set configuredExtensionKind)"

text \<open>\<open>super_canInstall\<close> is the generic check of the abstract service.\<close>

definition canInstall ::
  "(IGalleryExtension \<Rightarrow> bool) \<Rightarrow> (IExtensionIdentifier \<Rightarrow> string list option) \<Rightarrow>
   IGalleryExtension \<Rightarrow> bool" where
  "canInstall super_canInstall getUserConfiguredExtensionKind gallery =
     (if super_canInstall gallery then True
      else if isConfiguredToExecuteOnWeb getUserConfiguredExtensionKind gallery then True
      else False)"

text \<open>
  \<open>super_getCompatibleVersion\<close> is the generic resolution of the abstract service; it
  asks the gallery and so may be rejected. \<open>None\<close> is \<open>null\<close>.
\<close>

definition getCompatibleVersion ::
  "(IGalleryExtension \<Rightarrow> bool \<Rightarrow> bool \<Rightarrow> error + IGalleryExtension option) \<Rightarrow>
   (IExtensionIdentifier \<Rightarrow> string list option) \<Rightarrow>
   IGalleryExtension \<Rightarrow> bool \<Rightarrow> bool \<Rightarrow> error + IGalleryExtension option" where
  "getCompatibleVersion super_getCompatibleVersion getUserConfiguredExtensionKind
       extension sameVersion includePreRelease =
     (case super_getCompatibleVersion extension sameVersion includePreRelease of
        Inl e \<Rightarrow> Inl e
      | Inr (Some compatibleExtension) \<Rightarrow> Inr (Some compatibleExtension)
      | Inr None \<Rightarrow>
          (if isConfiguredToExecuteOnWeb getUserConfiguredExtensionKind extension
           then Inr (Some extension)
           else Inr None))"

text \<open>
  \<open>updateMetadata\<close> is a method of the service, so it has the scanner service and the
  store at hand; it returns \<open>local\<close>.
\<close>

definition updateMetadata ::
  "'st IWebExtensionsScannerService \<Rightarrow> ILocalExtension \<Rightarrow> Metadata \<Rightarrow> 'st \<Rightarrow>
   (error + ILocalExtension) \<times> 'st" where
  "updateMetadata webExtensionsScannerService local metadata st = (Inr local, st)"

subsection \<open>getMetadata, toLocalExtension\<close>

definition getMetadata :: "InstallOptions option \<Rightarrow> IScannedExtension option \<Rightarrow> Metadata" where
  "getMetadata options existingExtension =
     (let metadata =
            (case existingExtension of
               None \<Rightarrow> empty_metadata
             | Some e \<Rightarrow> (case ext_metadata e of None \<Rightarrow> empty_metadata | Some m \<Rightarrow> m))
      in metadata\<lparr>isMachineScoped :=
           js_or (case options of None \<Rightarrow> None | Some opts \<Rightarrow> opt_isMachineScoped opts)
                 (isMachineScoped metadata)\<rparr>)"

definition toLocalExtension :: "IScannedExtension \<Rightarrow> ILocalExtension" where
  "toLocalExtension extension =
     (let metadata = getMetadata None (Some extension)
      in \<lparr>local_type = ext_type extension,
          local_isBuiltin = ext_isBuiltin extension,
          local_identifier =
            \<lparr>ext_id = ext_id (ext_identifier extension),
             uuid = (case md_id metadata of
                       Some i \<Rightarrow> Some i
                     | None \<Rightarrow> uuid (ext_identifier extension))\<rparr>,
          local_manifest = ext_manifest extension,
          local_location = ext_location extension,
          local_metadata = ext_metadata extension,
          local_isMachineScoped = truthy (isMachineScoped metadata),
          local_isApplicationScoped = truthy (isApplicationScoped metadata),
          local_publisherId = or_null (publisherId metadata),
          local_publisherDisplayName = or_null (publisherDisplayName metadata),
          local_installedTimestamp = installedTimestamp metadata,
          local_isPreReleaseVersion = truthy (isPreReleaseVersion metadata),
          local_preRelease = truthy (preRelease metadata),
          local_targetPlatform = WEB,
          local_updated = truthy (updated metadata)\<rparr>)"

subsection \<open>InstallExtensionTask\<close>

text \<open>
  The private field \<open>_operation\<close> is \<open>priv_operation\<close>; the getter is \<open>operation\<close>.
\<close>

record InstallExtensionTask =
  task_identifier :: IExtensionIdentifier
  task_source :: InstallSource
  priv_operation :: InstallOperation
  task_extension :: InstallSource
  task_options :: InstallOptions

definition operation :: "InstallExtensionTask \<Rightarrow> InstallOperation" where
  "operation task =
     (case opt_operation (task_options task) of
        None \<Rightarrow> priv_operation task
      | Some op \<Rightarrow> op)"

text \<open>The constructor; \<open>getGalleryExtensionId\<close> is a helper of another module.\<close>

definition new_InstallExtensionTask ::
  "(string \<Rightarrow> string \<Rightarrow> string) \<Rightarrow> IExtensionManifest \<Rightarrow> InstallSource \<Rightarrow>
   InstallOptions \<Rightarrow> InstallExtensionTask" where
  "new_InstallExtensionTask getGalleryExtensionId manifest extension options =
     \<lparr>task_identifier =
        (case extension of
           FromLocation _ \<Rightarrow>
             \<lparr>ext_id = getGalleryExtensionId (manifest_publisher manifest) (manifest_name manifest),
              uuid = None\<rparr>
         | FromGallery g \<Rightarrow> gallery_identifier g),
      task_source = extension,
      priv_operation = Install,
      task_extension = extension,
      task_options = options\<rparr>"

text \<open>
  The assignments of \<open>doRun\<close> for a gallery source, in the order of the source. The
  read \<open>metadata?.preRelease\<close> sees the value carried over by \<open>getMetadata\<close>, since no
  earlier assignment writes \<open>preRelease\<close>.
\<close>

definition gallery_metadata ::
  "nat \<Rightarrow> InstallOptions \<Rightarrow> IScannedExtension option \<Rightarrow> IGalleryExtension \<Rightarrow> Metadata \<Rightarrow>
   Metadata" where
  "gallery_metadata now options existingExtension g metadata =
     metadata
      \<lparr>md_id := uuid (gallery_identifier g),
       publisherDisplayName := Some (gallery_publisherDisplayName g),
       publisherId := Some (gallery_publisherId g),
       installedTimestamp := Some now,
       isPreReleaseVersion := Some (gallery_isPreReleaseVersion g),
       isBuiltin := js_or (opt_isBuiltin options) (map_option ext_isBuiltin existingExtension),
       isSystem :=
         (if map_option ext_type existingExtension = Some System then Some True else None),
       updated := Some (existingExtension \<noteq> None),
       preRelease :=
         js_or (Some (gallery_isPreReleaseVersion g))
           (case opt_installPreReleaseVersion options of
              Some b \<Rightarrow> Some b
            | None \<Rightarrow> preRelease metadata)\<rparr>"

text \<open>
  \<open>doRun\<close>. \<open>areSameExtensions\<close> is a helper of another module and \<open>now\<close> is the value
  of \<open>Date.now()\<close>. The result is the promise's outcome, the task (whose \<open>_operation\<close>
  may have been set) and the store.
\<close>

definition doRun ::
  "(IExtensionIdentifier \<Rightarrow> IExtensionIdentifier \<Rightarrow> bool) \<Rightarrow> nat \<Rightarrow>
   'st IWebExtensionsScannerService \<Rightarrow> InstallExtensionTask \<Rightarrow> 'st \<Rightarrow>
   (error + ILocalExtension \<times> Metadata) \<times> InstallExtensionTask \<times> 'st" where
  "doRun areSameExtensions now webExtensionsScannerService task st =
     (case scanUserExtensions webExtensionsScannerService st of
        (Inl e, st1) \<Rightarrow> (Inl e, task, st1)
      | (Inr userExtensions, st1) \<Rightarrow>
          (let existingExtension =
                 find (\<lambda>e. areSameExtensions (ext_identifier e) (task_identifier task))
                   userExtensions;
               task1 = (if existingExtension \<noteq> None then task\<lparr>priv_operation := Update\<rparr> else task);
               metadata0 = getMetadata (Some (task_options task)) existingExtension;
               metadata =
                 (case task_extension task of
                    FromLocation _ \<Rightarrow> metadata0
                  | FromGallery g \<Rightarrow>
                      gallery_metadata now (task_options task) existingExtension g metadata0)
           in case (case task_extension task of
                      FromLocation u \<Rightarrow>
                        addExtension webExtensionsScannerService u metadata st1
                    | FromGallery g \<Rightarrow>
                        addExtensionFromGallery webExtensionsScannerService g metadata st1) of
                (Inl e, st2) \<Rightarrow> (Inl e, task1, st2)
              | (Inr scannedExtension, st2) \<Rightarrow>
                  (Inr (toLocalExtension scannedExtension, metadata), task1, st2)))"

text \<open>\<open>UninstallExtensionTask.doRun\<close>.\<close>

definition uninstall_doRun ::
  "'st IWebExtensionsScannerService \<Rightarrow> ILocalExtension \<Rightarrow> 'st \<Rightarrow> (error + unit) \<times> 'st" where
  "uninstall_doRun webExtensionsScannerService extension st =
     removeExtension webExtensionsScannerService (local_identifier extension) st"

section \<open>remoteAgentEnvironmentImpl.ts\<close>

subsection \<open>massageWhenConditions\<close>

definition starts_with :: "string \<Rightarrow> string \<Rightarrow> bool" where
  "starts_with pat s = (take (length pat) s = pat)"

text \<open>\<open>/resourceScheme/.test(s)\<close>: the pattern occurs in \<open>s\<close>.\<close>

fun regex_test :: "string \<Rightarrow> string \<Rightarrow> bool" where
  "regex_test pat [] = (pat = [])"
| "regex_test pat (c # cs) = (starts_with pat (c # cs) \<or> regex_test pat cs)"

text \<open>
  \<open>value.replace(/file/g, 'vscode-remote')\<close>: the occurrences of \<open>file\<close> are replaced
  from left to right, and the search resumes after each occurrence.
\<close>

fun replace_file :: "string \<Rightarrow> string" where
  "replace_file [] = []"
| "replace_file (c # cs) =
     (if starts_with ''file'' (c # cs) then ''vscode-remote'' @ replace_file (drop 4 (c # cs))
      else c # replace_file cs)"

definition mapResourceSchemeValue :: "string \<Rightarrow> bool \<Rightarrow> string" where
  "mapResourceSchemeValue v isRegex = replace_file v"

record RegExp =
  re_source :: string
  re_global :: bool
  re_ignoreCase :: bool
  re_multiline :: bool
  re_dotAll :: bool
  re_unicode :: bool
  re_sticky :: bool

text \<open>
  \<open>new RegExp(pattern, flags)\<close> throws a \<open>SyntaxError\<close> when the engine rejects the
  pattern; \<open>valid\<close> is the engine's check. The new object has the pattern as its
  source and the flags that the string names.
\<close>

definition new_RegExp :: "(string \<Rightarrow> bool) \<Rightarrow> string \<Rightarrow> string \<Rightarrow> error + RegExp" where
  "new_RegExp valid pattern flags =
     (if valid pattern
      then Inr \<lparr>re_source = pattern,
                re_global = (CHR ''g'' \<in> set flags),
                re_ignoreCase = (CHR ''i'' \<in> set flags),
                re_multiline = (CHR ''m'' \<in> set flags),
                re_dotAll = (CHR ''s'' \<in> set flags),
                re_unicode = (CHR ''u'' \<in> set flags),
                re_sticky = (CHR ''y'' \<in> set flags)\<rparr>
      else Inl (SyntaxError pattern))"

definition mapResourceRegExpValue :: "(string \<Rightarrow> bool) \<Rightarrow> RegExp \<Rightarrow> error + RegExp" where
  "mapResourceRegExpValue valid v =
     (let flags = [];
          flags = flags @ (if re_global v then ''g'' else []);
          flags = flags @ (if re_ignoreCase v then ''i'' else []);
          flags = flags @ (if re_multiline v then ''m'' else [])
      in new_RegExp valid (mapResourceSchemeValue (re_source v) True) flags)"

text \<open>The operand of an equality: \<open>any\<close>; \<open>typeof value === 'string'\<close> is \<open>JString\<close>.\<close>

datatype jsvalue = JString string | JBoolean bool | JNumber int

text \<open>
  Modelled from the spec: the classes of \<open>vs/platform/contextkey/common/contextkey\<close>
  are not part of the sources at hand. The specification describes a when-expression
  as a recursive sum type \<open>Defined | Not | Equals | NotEquals | Regex | In | And | Or\<close>;
  the names are those that the file imports, and \<open>create\<close> is the constructor.
\<close>

datatype ContextKeyExpression =
    ContextKeyDefinedExpr string
  | ContextKeyNotExpr string
  | ContextKeyEqualsExpr string jsvalue
  | ContextKeyNotEqualsExpr string jsvalue
  | ContextKeyRegexExpr string "RegExp option"
  | ContextKeyInExpr string string
  | ContextKeyAndExpr "ContextKeyExpression list"
  | ContextKeyOrExpr "ContextKeyExpression list"

text \<open>The methods of \<open>_exprKeyMapper\<close>.\<close>

definition mapDefined :: "string \<Rightarrow> ContextKeyExpression" where
  "mapDefined key = ContextKeyDefinedExpr key"

definition mapNot :: "string \<Rightarrow> ContextKeyExpression" where
  "mapNot key = ContextKeyNotExpr key"

definition mapEquals :: "string \<Rightarrow> jsvalue \<Rightarrow> ContextKeyExpression" where
  "mapEquals key v =
     (case v of
        JString s \<Rightarrow>
          (if key = ''resourceScheme''
           then ContextKeyEqualsExpr key (JString (mapResourceSchemeValue s False))
           else ContextKeyEqualsExpr key v)
      | _ \<Rightarrow> ContextKeyEqualsExpr key v)"

definition mapNotEquals :: "string \<Rightarrow> jsvalue \<Rightarrow> ContextKeyExpression" where
  "mapNotEquals key v =
     (case v of
        JString s \<Rightarrow>
          (if key = ''resourceScheme''
           then ContextKeyNotEqualsExpr key (JString (mapResourceSchemeValue s False))
           else ContextKeyNotEqualsExpr key v)
      | _ \<Rightarrow> ContextKeyNotEqualsExpr key v)"

definition mapRegex ::
  "(string \<Rightarrow> bool) \<Rightarrow> string \<Rightarrow> RegExp option \<Rightarrow> error + ContextKeyExpression" where
  "mapRegex valid key regexp =
     (case regexp of
        Some r \<Rightarrow>
          (if key = ''resourceScheme''
           then (case mapResourceRegExpValue valid r of
                   Inl e \<Rightarrow> Inl e
                 | Inr r' \<Rightarrow> Inr (ContextKeyRegexExpr key (Some r')))
           else Inr (ContextKeyRegexExpr key regexp))
      | None \<Rightarrow> Inr (ContextKeyRegexExpr key regexp))"

definition mapIn :: "string \<Rightarrow> string \<Rightarrow> ContextKeyExpression" where
  "mapIn key valueKey = ContextKeyInExpr key valueKey"

text \<open>
  Modelled from the spec: \<open>expr.map(mapper)\<close> is a method of the absent classes. The
  specification describes it as a visitor applied structurally: an atomic predicate
  is handed to the mapper's method for its kind, and a conjunction or disjunction
  maps its operands in order. An exception of the mapper ends the traversal.
\<close>

fun expr_map :: "(string \<Rightarrow> bool) \<Rightarrow> ContextKeyExpression \<Rightarrow> error + ContextKeyExpression"
  and expr_map_list ::
    "(string \<Rightarrow> bool) \<Rightarrow> ContextKeyExpression list \<Rightarrow> error + ContextKeyExpression list" where
  "expr_map valid (ContextKeyDefinedExpr key) = Inr (mapDefined key)"
| "expr_map valid (ContextKeyNotExpr key) = Inr (mapNot key)"
| "expr_map valid (ContextKeyEqualsExpr key v) = Inr (mapEquals key v)"
| "expr_map valid (ContextKeyNotEqualsExpr key v) = Inr (mapNotEquals key v)"
| "expr_map valid (ContextKeyRegexExpr key regexp) = mapRegex valid key regexp"
| "expr_map valid (ContextKeyInExpr key valueKey) = Inr (mapIn key valueKey)"
| "expr_map valid (ContextKeyAndExpr es) =
     (case expr_map_list valid es of Inl e \<Rightarrow> Inl e | Inr es' \<Rightarrow> Inr (ContextKeyAndExpr es'))"
| "expr_map valid (ContextKeyOrExpr es) =
     (case expr_map_list valid es of Inl e \<Rightarrow> Inl e | Inr es' \<Rightarrow> Inr (ContextKeyOrExpr es'))"
| "expr_map_list valid [] = Inr []"
| "expr_map_list valid (e # es) =
     (case expr_map valid e of
        Inl x \<Rightarrow> Inl x
      | Inr e' \<Rightarrow>
          (case expr_map_list valid es of Inl x \<Rightarrow> Inl x | Inr es' \<Rightarrow> Inr (e' # es')))"

text \<open>An entry of a contribution point: its \<open>when\<close> and the rest of its properties.\<close>

record WhenUser =
  when_clause :: "string option"
  command :: string

text \<open>\<open>WhenUser[] | WhenUser\<close>; an element may be \<open>null\<close> or \<open>undefined\<close>.\<close>

datatype WhenUsers = Single "WhenUser option" | Multiple "WhenUser option list"

type_synonym LocWhenUser = "(string \<times> WhenUsers) list"

record Contributes =
  menus :: "LocWhenUser option"
  keybindings :: "WhenUsers option"
  views :: "LocWhenUser option"

text \<open>
  \<open>_massageWhenUser\<close>. \<open>deserialize\<close> and \<open>serialize\<close> are \<open>ContextKeyExpr.deserialize\<close>
  and the method \<open>serialize\<close>, of the absent module; \<open>None\<close> is \<open>undefined\<close>. An empty
  \<open>when\<close> is falsy.
\<close>

definition massageWhenUser ::
  "(string \<Rightarrow> bool) \<Rightarrow> (string \<Rightarrow> ContextKeyExpression option) \<Rightarrow>
   (ContextKeyExpression \<Rightarrow> string) \<Rightarrow> WhenUser option \<Rightarrow> error + WhenUser option" where
  "massageWhenUser valid deserialize serialize element =
     (case element of
        None \<Rightarrow> Inr element
      | Some el \<Rightarrow>
          (case when_clause el of
             None \<Rightarrow> Inr element
           | Some w \<Rightarrow>
               (if w = [] \<or> \<not> regex_test ''resourceScheme'' w then Inr element
                else (case deserialize w of
                        None \<Rightarrow> Inr element
                      | Some expr \<Rightarrow>
                          (case expr_map valid expr of
                             Inl e \<Rightarrow> Inl e
                           | Inr massaged \<Rightarrow>
                               Inr (Some (el\<lparr>when_clause := Some (serialize massaged)\<rparr>)))))))"

text \<open>A loop whose body may throw: the first exception ends it.\<close>

fun for_each :: "('a \<Rightarrow> error + 'a) \<Rightarrow> 'a list \<Rightarrow> error + 'a list" where
  "for_each f [] = Inr []"
| "for_each f (x # xs) =
     (case f x of
        Inl e \<Rightarrow> Inl e
      | Inr y \<Rightarrow> (case for_each f xs of Inl e \<Rightarrow> Inl e | Inr ys \<Rightarrow> Inr (y # ys)))"

definition massageWhenUserArr ::
  "(string \<Rightarrow> bool) \<Rightarrow> (string \<Rightarrow> ContextKeyExpression option) \<Rightarrow>
   (ContextKeyExpression \<Rightarrow> string) \<Rightarrow> WhenUsers \<Rightarrow> error + WhenUsers" where
  "massageWhenUserArr valid deserialize serialize elements =
     (case elements of
        Multiple es \<Rightarrow>
          (case for_each (massageWhenUser valid deserialize serialize) es of
             Inl e \<Rightarrow> Inl e
           | Inr es' \<Rightarrow> Inr (Multiple es'))
      | Single el \<Rightarrow>
          (case massageWhenUser valid deserialize serialize el of
             Inl e \<Rightarrow> Inl e
           | Inr el' \<Rightarrow> Inr (Single el')))"

definition massageLocWhenUser ::
  "(string \<Rightarrow> bool) \<Rightarrow> (string \<Rightarrow> ContextKeyExpression option) \<Rightarrow>
   (ContextKeyExpression \<Rightarrow> string) \<Rightarrow> LocWhenUser \<Rightarrow> error + LocWhenUser" where
  "massageLocWhenUser valid deserialize serialize target =
     for_each
       (\<lambda>(loc, elements).
          case massageWhenUserArr valid deserialize serialize elements of
            Inl e \<Rightarrow> Inl e
          | Inr elements' \<Rightarrow> Inr (loc, elements'))
       target"

record IExtensionDescription =
  desc_identifier :: string
  desc_location :: string
  desc_isBuiltin :: bool
  desc_isUnderDevelopment :: bool
  contributes :: "Contributes option"

text \<open>\<open>if (x) { f(x); }\<close> on an optional property.\<close>

definition if_present :: "('a \<Rightarrow> error + 'a) \<Rightarrow> 'a option \<Rightarrow> error + 'a option" where
  "if_present f x =
     (case x of
        None \<Rightarrow> Inr None
      | Some v \<Rightarrow> (case f v of Inl e \<Rightarrow> Inl e | Inr v' \<Rightarrow> Inr (Some v')))"

text \<open>The callback of \<open>extensions.forEach\<close>.\<close>

definition massageExtension ::
  "(string \<Rightarrow> bool) \<Rightarrow> (string \<Rightarrow> ContextKeyExpression option) \<Rightarrow>
   (ContextKeyExpression \<Rightarrow> string) \<Rightarrow> IExtensionDescription \<Rightarrow>
   error + IExtensionDescription" where
  "massageExtension valid deserialize serialize extension =
     (case contributes extension of
        None \<Rightarrow> Inr extension
      | Some c \<Rightarrow>
          (case if_present (massageLocWhenUser valid deserialize serialize) (menus c) of
             Inl e \<Rightarrow> Inl e
           | Inr menus' \<Rightarrow>
               (case if_present (massageWhenUserArr valid deserialize serialize)
                       (keybindings c) of
                  Inl e \<Rightarrow> Inl e
                | Inr keybindings' \<Rightarrow>
                    (case if_present (massageLocWhenUser valid deserialize serialize)
                            (views c) of
                       Inl e \<Rightarrow> Inl e
                     | Inr views' \<Rightarrow>
                         Inr (extension\<lparr>contributes :=
                                Some (c\<lparr>menus := menus', keybindings := keybindings',
                                        views := views'\<rparr>)\<rparr>)))))"

definition massageWhenConditions ::
  "(string \<Rightarrow> bool) \<Rightarrow> (string \<Rightarrow> ContextKeyExpression option) \<Rightarrow>
   (ContextKeyExpression \<Rightarrow> string) \<Rightarrow> IExtensionDescription list \<Rightarrow>
   error + IExtensionDescription list" where
  "massageWhenConditions valid deserialize serialize extensions =
     for_each (massageExtension valid deserialize serialize) extensions"

subsection \<open>getEnvironmentData\<close>

datatype OperatingSystem = Windows | Macintosh | Linux

record INativeEnvironmentService =
  appRoot :: string
  machineSettingsResource :: URI
  logsPath :: string
  extensionsPath :: string
  globalStorageHome :: URI
  workspaceStorageHome :: URI
  userHome :: URI

record IRemoteAgentEnvironmentDTO =
  dto_pid :: nat
  dto_connectionToken :: string
  dto_appRoot :: URI
  dto_settingsPath :: URI
  dto_logsPath :: URI
  dto_extensionsPath :: URI
  dto_extensionHostLogsPath :: URI
  dto_globalStorageHome :: URI
  dto_workspaceStorageHome :: URI
  dto_userHome :: URI
  dto_os :: OperatingSystem

record RemoteAgentEnvironmentChannel =
  connectionToken :: string
  environmentService :: INativeEnvironmentService

text \<open>
  The decimal numeral that a template literal prints for a non-negative integer.
\<close>

definition digit_char :: "nat \<Rightarrow> char" where
  "digit_char d = char_of (48 + d)"

function decimal :: "nat \<Rightarrow> string" where
  "decimal n = (if n < 10 then [digit_char n] else decimal (n div 10) @ [digit_char (n mod 10)])"
  by pat_completeness auto

termination
  by (relation "measure id") auto

declare decimal.simps [simp del]

text \<open>
  \<open>n++\<close> on a JavaScript number that holds a non-negative integer. A number is a
  double: below \<open>2^53\<close> every integer is a number and the sum \<open>n + 1\<close> is exact. From
  \<open>2^53\<close> to \<open>2^54\<close> the numbers are the even integers, and \<open>n + 1\<close> lies halfway
  between \<open>n\<close> and \<open>n + 2\<close>: it is rounded to the one whose significand \<open>n div 2\<close> or
  \<open>n div 2 + 1\<close> is even. From \<open>2^54\<close> on the numbers are at least four apart and the
  sum is rounded back to \<open>n\<close>. So a counter that starts at \<open>1\<close> stops at \<open>2^53\<close>.
\<close>

definition number_increment :: "nat \<Rightarrow> nat" where
  "number_increment n =
     (if n < 2 ^ 53 then n + 1
      else if n < 2 ^ 54 then (if even (n div 2) then n else n + 2)
      else n)"

text \<open>
  \<open>getEnvironmentData\<close>. The static counter \<open>_namePool\<close> is the state: it is read,
  then incremented. \<open>join\<close> and \<open>URI_file\<close> (\<open>URI.file\<close>) are helpers of other
  modules; \<open>pid\<close> and \<open>os\<close> are \<open>process.pid\<close> and \<open>platform.OS\<close>.
\<close>

definition getEnvironmentData ::
  "(string \<Rightarrow> string \<Rightarrow> string) \<Rightarrow> (string \<Rightarrow> URI) \<Rightarrow> nat \<Rightarrow> OperatingSystem \<Rightarrow>
   RemoteAgentEnvironmentChannel \<Rightarrow> nat \<Rightarrow> IRemoteAgentEnvironmentDTO \<times> nat" where
  "getEnvironmentData join URI_file pid os this namePool =
     (\<lparr>dto_pid = pid,
       dto_connectionToken = connectionToken this,
       dto_appRoot = URI_file (appRoot (environmentService this)),
       dto_settingsPath = machineSettingsResource (environmentService this),
       dto_logsPath = URI_file (logsPath (environmentService this)),
       dto_extensionsPath = URI_file (extensionsPath (environmentService this)),
       dto_extensionHostLogsPath =
         URI_file (join (logsPath (environmentService this)) (''exthost'' @ decimal namePool)),
       dto_globalStorageHome = globalStorageHome (environmentService this),
       dto_workspaceStorageHome = workspaceStorageHome (environmentService this),
       dto_userHome = userHome (environmentService this),
       dto_os = os\<rparr>,
      number_increment namePool)"

text \<open>The initial value of the static counter.\<close>

definition initial_namePool :: nat where
  "initial_namePool = 1"

text \<open>The names \<open>exthostN\<close>.\<close>

definition exthost_names :: "string set" where
  "exthost_names = {''exthost'' @ decimal n | n. True}"

subsection \<open>The merge of scanExtensions\<close>

text \<open>
  A JavaScript \<open>Map\<close> keeps its keys in insertion order, and \<open>set\<close> on a key that is
  present replaces the value where the key stands: an association list.
\<close>

fun map_set :: "'k \<Rightarrow> 'v \<Rightarrow> ('k \<times> 'v) list \<Rightarrow> ('k \<times> 'v) list" where
  "map_set k v [] = [(k, v)]"
| "map_set k v ((k', v') # m) = (if k' = k then (k, v) # m else (k', v') # map_set k v m)"

text \<open>
  \<open>nls.localize('overwritingExtension', "Overwriting extension {0} with {1}.", a, b)\<close>
  with the default message.
\<close>

definition overwritingExtension :: "string \<Rightarrow> string \<Rightarrow> string" where
  "overwritingExtension a b = ''Overwriting extension '' @ a @ '' with '' @ b @ ''.''"

text \<open>
  The three \<open>forEach\<close> callbacks. \<open>toKey\<close> is \<open>ExtensionIdentifier.toKey\<close>, a helper of
  another module. An entry of a source may be \<open>null\<close> (\<open>None\<close>) and is then skipped.
  The second component of the state of \<open>set_installed\<close> collects the arguments of
  \<open>console.warn\<close>.
\<close>

definition set_builtin ::
  "(string \<Rightarrow> string) \<Rightarrow> (string \<times> IExtensionDescription) list \<Rightarrow>
   IExtensionDescription option \<Rightarrow> (string \<times> IExtensionDescription) list" where
  "set_builtin toKey result builtinExtension =
     (case builtinExtension of
        None \<Rightarrow> result
      | Some e \<Rightarrow> map_set (toKey (desc_identifier e)) e result)"

definition set_installed ::
  "(string \<Rightarrow> string) \<Rightarrow> (string \<times> IExtensionDescription) list \<times> string list \<Rightarrow>
   IExtensionDescription option \<Rightarrow> (string \<times> IExtensionDescription) list \<times> string list" where
  "set_installed toKey state installedExtension =
     (case installedExtension of
        None \<Rightarrow> state
      | Some e \<Rightarrow>
          (map_set (toKey (desc_identifier e)) e (fst state),
           (case map_of (fst state) (toKey (desc_identifier e)) of
              None \<Rightarrow> snd state
            | Some old \<Rightarrow>
                snd state @ [overwritingExtension (desc_location old) (desc_location e)])))"

definition set_developed ::
  "(string \<Rightarrow> string) \<Rightarrow> (string \<times> IExtensionDescription) list \<Rightarrow>
   IExtensionDescription option \<Rightarrow> (string \<times> IExtensionDescription) list" where
  "set_developed toKey result developedExtension =
     (case developedExtension of
        None \<Rightarrow> result
      | Some e \<Rightarrow> map_set (toKey (desc_identifier e)) e result)"

text \<open>
  The continuation of \<open>Promise.all\<close> in \<open>scanExtensions\<close>: the merged list and the
  warnings.
\<close>

definition scanExtensions ::
  "(string \<Rightarrow> string) \<Rightarrow> IExtensionDescription option list \<Rightarrow>
   IExtensionDescription option list \<Rightarrow> IExtensionDescription option list \<Rightarrow>
   IExtensionDescription list \<times> string list" where
  "scanExtensions toKey builtinExtensions installedExtensions developedExtensions =
     (let result1 = foldl (set_builtin toKey) [] builtinExtensions;
          state2 = foldl (set_installed toKey) (result1, []) installedExtensions;
          result3 = foldl (set_developed toKey) (fst state2) developedExtensions
      in (map snd result3, snd state2))"

text \<open>The identity keys that a source yields.\<close>

definition keys_of :: "(string \<Rightarrow> string) \<Rightarrow> IExtensionDescription option list \<Rightarrow> string list" where
  "keys_of toKey src = map (\<lambda>e. toKey (desc_identifier e)) (List.map_filter id src)"

section \<open>Notions used in the proofs\<close>

text \<open>A rewriter is stable when it leaves each of its results as it is.\<close>

definition stable :: "('a \<Rightarrow> error + 'a) \<Rightarrow> bool" where
  "stable f = (\<forall>x y. f x = Inr y \<longrightarrow> f y = Inr y)"

definition keyed :: "(string \<Rightarrow> string) \<Rightarrow> (string \<times> IExtensionDescription) list \<Rightarrow> bool" where
  "keyed toKey m = (\<forall>(k, v) \<in> set m. toKey (desc_identifier v) = k)"

definition wf_result :: "(string \<Rightarrow> string) \<Rightarrow> (string \<times> IExtensionDescription) list \<Rightarrow> bool" where
  "wf_result toKey m = (distinct (map fst m) \<and> keyed toKey m)"

definition undecimal :: "string \<Rightarrow> nat" where
  "undecimal s = foldl (\<lambda>a c. 10 * a + (of_char c - 48)) 0 s"

section \<open>Concrete inputs\<close>

definition example_identifier :: IExtensionIdentifier where
  "example_identifier = \<lparr>ext_id = ''beta.fmt'', uuid = Some ''U1''\<rparr>"

definition example_manifest :: IExtensionManifest where
  "example_manifest = \<lparr>manifest_publisher = ''beta'', manifest_name = ''fmt''\<rparr>"

definition example_gallery :: "bool \<Rightarrow> IGalleryExtension" where
  "example_gallery pre =
     \<lparr>gallery_identifier = example_identifier, gallery_publisherId = ''P1'',
      gallery_publisherDisplayName = ''Beta'', gallery_isPreReleaseVersion = pre\<rparr>"

definition example_installed :: "Metadata option \<Rightarrow> IScannedExtension" where
  "example_installed m =
     \<lparr>ext_type = User, ext_isBuiltin = False, ext_identifier = example_identifier,
      ext_manifest = example_manifest, ext_location = ''/user/beta.fmt'', ext_metadata = m\<rparr>"

definition example_options :: "bool option \<Rightarrow> InstallOperation option \<Rightarrow> InstallOptions" where
  "example_options pre op =
     \<lparr>opt_isBuiltin = None, opt_isMachineScoped = None,
      opt_installPreReleaseVersion = pre, opt_operation = op\<rparr>"

text \<open>A store that is the list of installed extensions.\<close>

definition example_scanner :: "IScannedExtension list IWebExtensionsScannerService" where
  "example_scanner =
     \<lparr>scanUserExtensions = (\<lambda>st. (Inr st, st)),
      addExtension = (\<lambda>u m st. (Inr (example_installed (Some m)), st @ [example_installed (Some m)])),
      addExtensionFromGallery =
        (\<lambda>g m st. (Inr (example_installed (Some m)), st @ [example_installed (Some m)])),
      removeExtension = (\<lambda>i st. (Inr (), filter (\<lambda>e. ext_id (ext_identifier e) \<noteq> ext_id i) st))\<rparr>"

definition example_same :: "IExtensionIdentifier \<Rightarrow> IExtensionIdentifier \<Rightarrow> bool" where
  "example_same a b = (ext_id a = ext_id b)"

definition example_galleryId :: "string \<Rightarrow> string \<Rightarrow> string" where
  "example_galleryId p n = p @ ''.'' @ n"

definition example_task :: "InstallSource \<Rightarrow> InstallOptions \<Rightarrow> InstallExtensionTask" where
  "example_task extension options =
     new_InstallExtensionTask example_galleryId example_manifest extension options"

definition example_run ::
  "InstallSource \<Rightarrow> InstallOptions \<Rightarrow> IScannedExtension list \<Rightarrow>
   (error + ILocalExtension \<times> Metadata) \<times> InstallExtensionTask \<times> IScannedExtension list" where
  "example_run extension options st =
     doRun example_same 1700000000 example_scanner (example_task extension options) st"

definition result_metadata ::
  "(error + ILocalExtension \<times> Metadata) \<times> InstallExtensionTask \<times> 'st \<Rightarrow> Metadata option" where
  "result_metadata r = (case fst r of Inl _ \<Rightarrow> None | Inr (l, md) \<Rightarrow> Some md)"

definition result_task ::
  "(error + ILocalExtension \<times> Metadata) \<times> InstallExtensionTask \<times> 'st \<Rightarrow> InstallExtensionTask" where
  "result_task r = fst (snd r)"

definition example_metadata :: "bool option \<Rightarrow> Metadata" where
  "example_metadata pre = empty_metadata\<lparr>preRelease := pre\<rparr>"

definition quote :: string where
  "quote = [CHR 0x27]"

fun join_with :: "string \<Rightarrow> string list \<Rightarrow> string" where
  "join_with sep [] = []"
| "join_with sep [x] = x"
| "join_with sep (x # y # ys) = x @ sep @ join_with sep (y # ys)"

text \<open>A printer of when-expressions, for the concrete inputs.\<close>

fun example_serialize :: "ContextKeyExpression \<Rightarrow> string" where
  "example_serialize (ContextKeyDefinedExpr key) = key"
| "example_serialize (ContextKeyNotExpr key) = ''!'' @ key"
| "example_serialize (ContextKeyEqualsExpr key (JString v)) = key @ '' == '' @ quote @ v @ quote"
| "example_serialize (ContextKeyEqualsExpr key (JBoolean b)) = (if b then key else ''!'' @ key)"
| "example_serialize (ContextKeyEqualsExpr key (JNumber n)) = key @ '' == number''"
| "example_serialize (ContextKeyNotEqualsExpr key (JString v)) =
     key @ '' != '' @ quote @ v @ quote"
| "example_serialize (ContextKeyNotEqualsExpr key (JBoolean b)) = (if b then ''!'' @ key else key)"
| "example_serialize (ContextKeyNotEqualsExpr key (JNumber n)) = key @ '' != number''"
| "example_serialize (ContextKeyRegexExpr key (Some r)) =
     key @ '' =~ /'' @ re_source r @ ''/'' @ (if re_ignoreCase r then ''i'' else [])"
| "example_serialize (ContextKeyRegexExpr key None) = key @ '' =~ /invalid/''"
| "example_serialize (ContextKeyInExpr key valueKey) = key @ '' in '' @ quote @ valueKey @ quote"
| "example_serialize (ContextKeyAndExpr es) = join_with '' && '' (map example_serialize es)"
| "example_serialize (ContextKeyOrExpr es) = join_with '' || '' (map example_serialize es)"

definition example_massaged_when :: string where
  "example_massaged_when = ''resourceScheme == '' @ quote @ ''vscode-remote'' @ quote"

text \<open>A parser that knows two expressions and rejects every other string.\<close>

definition example_deserialize :: "string \<Rightarrow> ContextKeyExpression option" where
  "example_deserialize w =
     (if w = ''resourceScheme == file''
      then Some (ContextKeyEqualsExpr ''resourceScheme'' (JString ''file''))
      else if w = example_massaged_when
      then Some (ContextKeyEqualsExpr ''resourceScheme'' (JString ''vscode-remote''))
      else None)"

definition example_entry :: "string \<Rightarrow> WhenUser" where
  "example_entry w = \<lparr>when_clause = Some w, command = ''acme.lint.run''\<rparr>"

definition example_contributes :: "string \<Rightarrow> Contributes" where
  "example_contributes w =
     \<lparr>menus = Some [(''editor/title'', Multiple [Some (example_entry w), None])],
      keybindings = Some (Single (Some (example_entry ''editorFocus''))),
      views = None\<rparr>"

definition example_contributing :: "string \<Rightarrow> IExtensionDescription" where
  "example_contributing w =
     \<lparr>desc_identifier = ''acme.lint'', desc_location = ''/user/acme.lint'',
      desc_isBuiltin = False, desc_isUnderDevelopment = False,
      contributes = Some (example_contributes w)\<rparr>"

definition example_builtin :: IExtensionDescription where
  "example_builtin =
     \<lparr>desc_identifier = ''acme.lint'', desc_location = ''/sys/acme.lint'',
      desc_isBuiltin = True, desc_isUnderDevelopment = False, contributes = None\<rparr>"

definition example_user :: IExtensionDescription where
  "example_user =
     \<lparr>desc_identifier = ''acme.lint'', desc_location = ''/user/acme.lint'',
      desc_isBuiltin = False, desc_isUnderDevelopment = True, contributes = None\<rparr>"

definition example_join :: "string \<Rightarrow> string \<Rightarrow> string" where
  "example_join a b = a @ ''/'' @ b"

definition example_URI_file :: "string \<Rightarrow> URI" where
  "example_URI_file p = ''file://'' @ p"

definition example_environment :: INativeEnvironmentService where
  "example_environment =
     \<lparr>appRoot = ''/opt/app'',
      machineSettingsResource = ''file:///home/u/.app/settings.json'',
      logsPath = ''/var/log/app'',
      extensionsPath = ''/home/u/.app/extensions'',
      globalStorageHome = ''file:///home/u/.app/globalStorage'',
      workspaceStorageHome = ''file:///home/u/.app/workspaceStorage'',
      userHome = ''file:///home/u''\<rparr>"

definition example_channel :: RemoteAgentEnvironmentChannel where
  "example_channel = \<lparr>connectionToken = ''token'', environmentService = example_environment\<rparr>"

definition example_getEnvironmentData :: "nat \<Rightarrow> IRemoteAgentEnvironmentDTO \<times> nat" where
  "example_getEnvironmentData n =
     getEnvironmentData example_join example_URI_file 4242 Linux example_channel n"

section \<open>Properties of webExtensionManagementService.ts\<close>

lemma doRun_task:
  assumes "scanUserExtensions svc st = (Inr userExtensions, st1)"
    and "doRun same now svc task st = (r, task', st')"
  shows "task' =
     (if find (\<lambda>e. same (ext_identifier e) (task_identifier task)) userExtensions \<noteq> None
      then task\<lparr>priv_operation := Update\<rparr> else task)"
  using assms by (auto simp: doRun_def Let_def split: prod.splits sum.splits)

lemma doRun_metadata:
  assumes "scanUserExtensions svc st = (Inr userExtensions, st1)"
    and "doRun same now svc task st = (Inr (l, md), task', st')"
    and "existing = find (\<lambda>e. same (ext_identifier e) (task_identifier task)) userExtensions"
  shows "md =
     (case task_extension task of
        FromLocation u \<Rightarrow> getMetadata (Some (task_options task)) existing
      | FromGallery g \<Rightarrow>
          gallery_metadata now (task_options task) existing g
            (getMetadata (Some (task_options task)) existing))"
  using assms
  by (auto simp: doRun_def Let_def split: prod.splits sum.splits InstallSource.splits)

lemma new_task_simps:
  "priv_operation (new_InstallExtensionTask gid manifest extension options) = Install"
  "task_options (new_InstallExtensionTask gid manifest extension options) = options"
  "task_extension (new_InstallExtensionTask gid manifest extension options) = extension"
  by (simp_all add: new_InstallExtensionTask_def)

lemma doRun_eq:
  assumes "scanUserExtensions svc st = (Inr userExtensions, st1)"
    and "existing = find (\<lambda>e. same (ext_identifier e) (task_identifier task)) userExtensions"
    and "md = (case task_extension task of
        FromLocation u \<Rightarrow> getMetadata (Some (task_options task)) existing
      | FromGallery g \<Rightarrow>
          gallery_metadata now (task_options task) existing g
            (getMetadata (Some (task_options task)) existing))"
    and "(case task_extension task of
            FromLocation u \<Rightarrow> addExtension svc u md st1
          | FromGallery g \<Rightarrow> addExtensionFromGallery svc g md st1) = (Inr sc, st2)"
  shows "doRun same now svc task st =
     (Inr (toLocalExtension sc, md),
      (if existing \<noteq> None then task\<lparr>priv_operation := Update\<rparr> else task), st2)"
  using assms
  by (auto simp: doRun_def Let_def split: prod.splits sum.splits InstallSource.splits)

lemma example_scan: "scanUserExtensions example_scanner st = (Inr st, st)"
  by (simp add: example_scanner_def)

lemma example_add:
  "(case ext of FromLocation u \<Rightarrow> addExtension example_scanner u md st
     | FromGallery g \<Rightarrow> addExtensionFromGallery example_scanner g md st)
     = (Inr (example_installed (Some md)), st @ [example_installed (Some md)])"
  by (simp add: example_scanner_def split: InstallSource.splits)

lemma example_task_simps:
  "priv_operation (example_task ext opts) = Install"
  "task_options (example_task ext opts) = opts"
  "task_extension (example_task ext opts) = ext"
  by (simp_all add: example_task_def new_InstallExtensionTask_def)

lemma example_task_id:
  "ext_id (task_identifier (example_task (FromLocation u) opts)) = ''beta.fmt''"
  "ext_id (task_identifier (example_task (FromGallery (example_gallery pre)) opts)) = ''beta.fmt''"
  by (simp_all add: example_task_def new_InstallExtensionTask_def example_galleryId_def
        example_manifest_def example_gallery_def example_identifier_def)

lemma example_installed_simps:
  "ext_id (ext_identifier (example_installed m)) = ''beta.fmt''"
  "ext_metadata (example_installed m) = m"
  "ext_type (example_installed m) = User"
  "ext_isBuiltin (example_installed m) = False"
  by (simp_all add: example_installed_def example_identifier_def)

lemma example_match:
  "example_same (ext_identifier (example_installed m))
     (task_identifier (example_task (FromLocation u) opts))"
  "example_same (ext_identifier (example_installed m))
     (task_identifier (example_task (FromGallery (example_gallery pre)) opts))"
  by (simp_all add: example_same_def example_task_id example_installed_simps)

lemma example_find:
  "find (\<lambda>e. example_same (ext_identifier e)
       (task_identifier (example_task (FromLocation u) opts)))
     [example_installed m] = Some (example_installed m)"
  "find (\<lambda>e. example_same (ext_identifier e)
       (task_identifier (example_task (FromGallery (example_gallery pre)) opts)))
     [example_installed m] = Some (example_installed m)"
  by (simp_all add: example_match)

lemma example_run_success:
  "\<exists>l md t' s'. example_run ext opts st = (Inr (l, md), t', s')"
  unfolding example_run_def
  using doRun_eq[OF example_scan refl refl example_add] by blast

lemma gallery_metadata_simps:
  "preRelease (gallery_metadata now opts ex g m) =
     js_or (Some (gallery_isPreReleaseVersion g))
       (case opt_installPreReleaseVersion opts of Some b \<Rightarrow> Some b | None \<Rightarrow> preRelease m)"
  "updated (gallery_metadata now opts ex g m) = Some (ex \<noteq> None)"
  "isMachineScoped (gallery_metadata now opts ex g m) = isMachineScoped m"
  by (simp_all add: gallery_metadata_def)

lemma getMetadata_simps:
  "preRelease (getMetadata opts ex) =
     (case ex of None \<Rightarrow> None
      | Some e \<Rightarrow> (case ext_metadata e of None \<Rightarrow> None | Some m \<Rightarrow> preRelease m))"
  "updated (getMetadata opts ex) =
     (case ex of None \<Rightarrow> None
      | Some e \<Rightarrow> (case ext_metadata e of None \<Rightarrow> None | Some m \<Rightarrow> updated m))"
  "isMachineScoped (getMetadata opts ex) =
     js_or (case opts of None \<Rightarrow> None | Some os \<Rightarrow> opt_isMachineScoped os)
       (case ex of None \<Rightarrow> None
        | Some e \<Rightarrow> (case ext_metadata e of None \<Rightarrow> None | Some m \<Rightarrow> isMachineScoped m))"
  by (simp_all add: getMetadata_def Let_def empty_metadata_def split: option.splits)

lemma install_metadata_isMachineScoped:
  "isMachineScoped
     (case src of
        FromLocation u \<Rightarrow> getMetadata opts ex
      | FromGallery g \<Rightarrow> gallery_metadata now os ex g (getMetadata opts ex)) =
   isMachineScoped (getMetadata opts ex)"
  by (simp add: gallery_metadata_simps split: InstallSource.splits)

text \<open>
  Claim C2, as the code has it. For a run of a freshly constructed task whose scan of the
  user extensions succeeds: when the options carry no operation kind, the task's
  operation kind is \<open>Install\<close> if no scanned extension has the task's identity and
  \<open>Update\<close> if one has; an operation kind in the options is the task's operation
  kind, whatever the scan finds. For a gallery source the \<open>updated\<close> flag of the
  resulting metadata is true exactly when an extension of the same identity was found.
  For a location source the task does not write the flag: the resulting metadata has
  the value carried by the existing extension's metadata.
\<close>

theorem doRun_operation_kind:
  assumes "task = new_InstallExtensionTask gid manifest extension options"
    and "scanUserExtensions svc st = (Inr userExtensions, st1)"
    and "doRun same now svc task st = (r, task', st')"
    and "existing = find (\<lambda>e. same (ext_identifier e) (task_identifier task)) userExtensions"
  shows "(opt_operation options = None \<and> existing = None \<longrightarrow> operation task' = Install)
       \<and> (opt_operation options = None \<and> existing \<noteq> None \<longrightarrow> operation task' = Update)
       \<and> (\<forall>k. opt_operation options = Some k \<longrightarrow> operation task' = k)
       \<and> (\<forall>g l md. extension = FromGallery g \<and> r = Inr (l, md) \<longrightarrow>
            (updated md = Some True \<longleftrightarrow> existing \<noteq> None))
       \<and> (\<forall>u l md. extension = FromLocation u \<and> r = Inr (l, md) \<longrightarrow>
            updated md =
              (case existing of None \<Rightarrow> None
               | Some e \<Rightarrow> (case ext_metadata e of None \<Rightarrow> None | Some m \<Rightarrow> updated m)))"
proof -
  have t: "task' = (if existing \<noteq> None then task\<lparr>priv_operation := Update\<rparr> else task)"
    using doRun_task[OF assms(2,3)] assms(4) by simp
  have ops: "(opt_operation options = None \<and> existing = None \<longrightarrow> operation task' = Install)
       \<and> (opt_operation options = None \<and> existing \<noteq> None \<longrightarrow> operation task' = Update)
       \<and> (\<forall>k. opt_operation options = Some k \<longrightarrow> operation task' = k)"
    using t assms(1) by (auto simp: operation_def new_task_simps)
  have upd: "updated md = Some True \<longleftrightarrow> existing \<noteq> None"
    if "extension = FromGallery g" "r = Inr (l, md)" for g l md
  proof -
    have run: "doRun same now svc task st = (Inr (l, md), task', st')"
      using assms(3) that by simp
    have "md = gallery_metadata now options existing g (getMetadata (Some options) existing)"
      using doRun_metadata[OF assms(2) run assms(4)] assms(1) that
      by (simp add: new_task_simps)
    then show ?thesis by (simp add: gallery_metadata_def)
  qed
  have loc: "updated md =
      (case existing of None \<Rightarrow> None
       | Some e \<Rightarrow> (case ext_metadata e of None \<Rightarrow> None | Some m \<Rightarrow> updated m))"
    if "extension = FromLocation u" "r = Inr (l, md)" for u l md
  proof -
    have run: "doRun same now svc task st = (Inr (l, md), task', st')"
      using assms(3) that by simp
    have "md = getMetadata (Some options) existing"
      using doRun_metadata[OF assms(2) run assms(4)] assms(1) that
      by (simp add: new_task_simps)
    then show ?thesis by (simp add: getMetadata_simps)
  qed
  show ?thesis using ops upd loc by blast
qed

theorem doRun_operation_kind_witness:
  "operation (result_task (example_run (FromGallery (example_gallery False))
       (example_options None None) [example_installed None])) = Update
   \<and> map_option updated (result_metadata (example_run (FromGallery (example_gallery False))
       (example_options None None) [example_installed None])) = Some (Some True)"
proof -
  obtain l md t' s' where run:
    "example_run (FromGallery (example_gallery False)) (example_options None None)
       [example_installed None] = (Inr (l, md), t', s')"
    using example_run_success by blast
  note th = doRun_operation_kind[OF example_task_def example_scan run[unfolded example_run_def] refl]
  have "operation t' = Update \<and> updated md = Some True"
    using th by (simp add: example_match example_options_def)
  then show ?thesis
    using run by (simp add: result_task_def result_metadata_def)
qed

text \<open>
  Claim C2 as stated fails for a location source: installing from a location over an
  existing extension that has no metadata gives the operation kind \<open>Update\<close> while
  the \<open>updated\<close> flag of the resulting metadata is \<open>undefined\<close>.
\<close>

theorem doRun_updated_location_counterexample:
  "operation (result_task (example_run (FromLocation ''/tmp/beta.fmt'')
       (example_options None None) [example_installed None])) = Update
   \<and> map_option updated (result_metadata (example_run (FromLocation ''/tmp/beta.fmt'')
       (example_options None None) [example_installed None])) = Some None"
  unfolding example_run_def
  by (subst doRun_eq[OF example_scan refl refl example_add],
      subst doRun_eq[OF example_scan refl refl example_add])
     (simp add: result_task_def result_metadata_def operation_def example_task_simps
        example_match getMetadata_simps example_installed_simps example_options_def)

text \<open>
  Claim C3 as stated fails when the gallery version is itself a pre-release: with
  \<open>installPreReleaseVersion = false\<close> in the options and \<open>preRelease = true\<close> in the
  existing metadata, the resulting metadata has \<open>preRelease = true\<close>.
\<close>

theorem doRun_opt_out_counterexample:
  "map_option preRelease (result_metadata (example_run (FromGallery (example_gallery True))
       (example_options (Some False) None)
       [example_installed (Some (example_metadata (Some True)))])) = Some (Some True)"
  unfolding example_run_def
  by (subst doRun_eq[OF example_scan refl refl example_add])
     (simp add: result_metadata_def example_task_simps gallery_metadata_simps js_or_def
        example_gallery_def)

text \<open>
  Claim C3, as the code has it. For an install of a gallery extension whose version is
  not a pre-release, over an existing extension whose metadata has \<open>preRelease = true\<close>,
  with \<open>installPreReleaseVersion = false\<close> in the options: the resulting metadata has
  \<open>preRelease = false\<close>, and the operation kind is \<open>Update\<close> when the options carry no
  operation kind.
\<close>

theorem doRun_explicit_opt_out:
  assumes "task = new_InstallExtensionTask gid manifest (FromGallery g) options"
    and "scanUserExtensions svc st = (Inr userExtensions, st1)"
    and "find (\<lambda>e. same (ext_identifier e) (task_identifier task)) userExtensions = Some e"
    and "ext_metadata e = Some m" and "preRelease m = Some True"
    and "opt_installPreReleaseVersion options = Some False"
    and "\<not> gallery_isPreReleaseVersion g"
    and "doRun same now svc task st = (Inr (l, md), task', st')"
  shows "preRelease md = Some False
       \<and> (opt_operation options = None \<longrightarrow> operation task' = Update)"
proof -
  have "md = gallery_metadata now options (Some e) g (getMetadata (Some options) (Some e))"
    using doRun_metadata[OF assms(2) assms(8) refl] assms(1,3) by (simp add: new_task_simps)
  then have "preRelease md = Some False"
    using assms(6,7) by (simp add: gallery_metadata_simps js_or_def)
  moreover have "task' = task\<lparr>priv_operation := Update\<rparr>"
    using doRun_task[OF assms(2) assms(8)] assms(3) by simp
  then have "opt_operation options = None \<longrightarrow> operation task' = Update"
    using assms(1) by (simp add: operation_def new_task_simps)
  ultimately show ?thesis by simp
qed

theorem doRun_explicit_opt_out_witness:
  "map_option preRelease (result_metadata (example_run (FromGallery (example_gallery False))
       (example_options (Some False) None)
       [example_installed (Some (example_metadata (Some True)))])) = Some (Some False)
   \<and> operation (result_task (example_run (FromGallery (example_gallery False))
       (example_options (Some False) None)
       [example_installed (Some (example_metadata (Some True)))])) = Update"
proof -
  obtain l md t' s' where run:
    "example_run (FromGallery (example_gallery False)) (example_options (Some False) None)
       [example_installed (Some (example_metadata (Some True)))] = (Inr (l, md), t', s')"
    using example_run_success by blast
  have "preRelease md = Some False
       \<and> (opt_operation (example_options (Some False) None) = None \<longrightarrow> operation t' = Update)"
    by (rule doRun_explicit_opt_out[OF example_task_def example_scan example_find(2) _ _ _ _
          run[unfolded example_run_def], where m = "example_metadata (Some True)"])
       (simp_all add: example_installed_simps example_metadata_def example_options_def
          example_gallery_def)
  then show ?thesis
    using run by (simp add: result_task_def result_metadata_def example_options_def)
qed

text \<open>
  Claim C4. For an install, from a location or from the gallery, over an existing
  extension whose metadata has \<open>preRelease = true\<close>, with no \<open>installPreReleaseVersion\<close>
  in the options: the resulting metadata has \<open>preRelease = true\<close>.
\<close>

theorem doRun_preRelease_sticky:
  assumes "scanUserExtensions svc st = (Inr userExtensions, st1)"
    and "find (\<lambda>e. same (ext_identifier e) (task_identifier task)) userExtensions = Some e"
    and "ext_metadata e = Some m" and "preRelease m = Some True"
    and "opt_installPreReleaseVersion (task_options task) = None"
    and "doRun same now svc task st = (Inr (l, md), task', st')"
  shows "preRelease md = Some True"
  using doRun_metadata[OF assms(1) assms(6) refl] assms(2-5)
  by (simp add: gallery_metadata_simps getMetadata_simps js_or_def split: InstallSource.splits)

theorem doRun_preRelease_sticky_witness:
  "map_option preRelease (result_metadata (example_run (FromGallery (example_gallery False))
       (example_options None None)
       [example_installed (Some (example_metadata (Some True)))])) = Some (Some True)
   \<and> map_option preRelease (result_metadata (example_run (FromLocation ''/tmp/beta.fmt'')
       (example_options None None)
       [example_installed (Some (example_metadata (Some True)))])) = Some (Some True)"
proof -
  obtain l md t' s' where run:
    "example_run (FromGallery (example_gallery False)) (example_options None None)
       [example_installed (Some (example_metadata (Some True)))] = (Inr (l, md), t', s')"
    using example_run_success by blast
  obtain l2 md2 t2 s2 where run2:
    "example_run (FromLocation ''/tmp/beta.fmt'') (example_options None None)
       [example_installed (Some (example_metadata (Some True)))] = (Inr (l2, md2), t2, s2)"
    using example_run_success by blast
  have "preRelease md = Some True"
    by (rule doRun_preRelease_sticky[OF example_scan example_find(2) _ _ _ run[unfolded example_run_def],
          where m = "example_metadata (Some True)"])
       (simp_all add: example_installed_simps example_metadata_def example_options_def
          example_task_simps)
  moreover have "preRelease md2 = Some True"
    by (rule doRun_preRelease_sticky[OF example_scan example_find(1) _ _ _ run2[unfolded example_run_def],
          where m = "example_metadata (Some True)"])
       (simp_all add: example_installed_simps example_metadata_def example_options_def
          example_task_simps)
  ultimately show ?thesis
    using run run2 by (simp add: result_metadata_def)
qed

text \<open>
  Claim C5. When the generic check rejects a gallery extension, \<open>canInstall\<close> is true
  exactly when the user-configured extension kind of its identifier includes \<open>web\<close>.
  When the generic resolution finds no compatible version, \<open>getCompatibleVersion\<close>
  returns the requested extension if that same override holds, and \<open>null\<close> otherwise.
\<close>

theorem web_override_fallback:
  "(\<not> super_canInstall gallery \<longrightarrow>
      canInstall super_canInstall getUserConfiguredExtensionKind gallery =
        (\<exists>kinds. getUserConfiguredExtensionKind (gallery_identifier gallery) = Some kinds
           \<and> ''web'' \<in> set kinds))
   \<and> (super_getCompatibleVersion gallery sameVersion includePreRelease = Inr None \<longrightarrow>
      getCompatibleVersion super_getCompatibleVersion getUserConfiguredExtensionKind
          gallery sameVersion includePreRelease =
        (if \<exists>kinds. getUserConfiguredExtensionKind (gallery_identifier gallery) = Some kinds
              \<and> ''web'' \<in> set kinds
         then Inr (Some gallery) else Inr None))"
  by (auto simp: canInstall_def getCompatibleVersion_def isConfiguredToExecuteOnWeb_def
      split: option.splits)

theorem web_override_fallback_witness:
  "canInstall (\<lambda>g. False) (\<lambda>i. Some [''ui'', ''web'']) (example_gallery False)
   \<and> \<not> canInstall (\<lambda>g. False) (\<lambda>i. Some [''workspace'']) (example_gallery False)
   \<and> getCompatibleVersion (\<lambda>g s p. Inr None) (\<lambda>i. Some [''ui'', ''web''])
         (example_gallery False) False True = Inr (Some (example_gallery False))
   \<and> getCompatibleVersion (\<lambda>g s p. Inr None) (\<lambda>i. None)
         (example_gallery False) False True = Inr None"
  using web_override_fallback[of "\<lambda>g. False" "example_gallery False" "\<lambda>i. Some [''ui'', ''web'']"
          "\<lambda>g s p. Inr None" False True]
        web_override_fallback[of "\<lambda>g. False" "example_gallery False" "\<lambda>i. Some [''workspace'']"
          "\<lambda>g s p. Inr None" False True]
        web_override_fallback[of "\<lambda>g. False" "example_gallery False" "\<lambda>i. None"
          "\<lambda>g s p. Inr None" False True]
  by simp

text \<open>
  Claim C9. \<open>updateMetadata\<close> returns the given local extension, for every scanner
  service, gallery metadata and store, and the store after the call is the store
  before it: no method of the scanner service is called.
\<close>

theorem updateMetadata_returns_local:
  "updateMetadata webExtensionsScannerService local metadata st = (Inr local, st)"
  by (simp add: updateMetadata_def)

text \<open>
  Claim C10. If the existing extension's metadata has \<open>isMachineScoped = true\<close>, the
  metadata computed by \<open>getMetadata\<close> has it true for every options argument (false
  or absent included); options with \<open>isMachineScoped = true\<close> set it; and the metadata
  that a successful \<open>doRun\<close> returns has it true in both cases.
\<close>

theorem isMachineScoped_monotone:
  "(ext_metadata e = Some m \<and> isMachineScoped m = Some True \<longrightarrow>
      isMachineScoped (getMetadata options (Some e)) = Some True)
   \<and> (options = Some opts \<and> opt_isMachineScoped opts = Some True \<longrightarrow>
      isMachineScoped (getMetadata options existingExtension) = Some True)
   \<and> (scanUserExtensions svc st = (Inr userExtensions, st1)
        \<and> doRun same now svc task st = (Inr (l, md), task', st')
        \<and> (opt_isMachineScoped (task_options task) = Some True
            \<or> (find (\<lambda>x. same (ext_identifier x) (task_identifier task)) userExtensions = Some e
                \<and> ext_metadata e = Some m \<and> isMachineScoped m = Some True)) \<longrightarrow>
      isMachineScoped md = Some True)"
proof -
  have a: "ext_metadata e = Some m \<and> isMachineScoped m = Some True \<longrightarrow>
      isMachineScoped (getMetadata options (Some e)) = Some True"
    by (simp add: getMetadata_simps js_or_def)
  have b: "options = Some opts \<and> opt_isMachineScoped opts = Some True \<longrightarrow>
      isMachineScoped (getMetadata options existingExtension) = Some True"
    by (simp add: getMetadata_simps js_or_def)
  have c: "isMachineScoped md = Some True"
    if scan: "scanUserExtensions svc st = (Inr userExtensions, st1)"
      and run: "doRun same now svc task st = (Inr (l, md), task', st')"
      and h: "opt_isMachineScoped (task_options task) = Some True
            \<or> (find (\<lambda>x. same (ext_identifier x) (task_identifier task)) userExtensions = Some e
                \<and> ext_metadata e = Some m \<and> isMachineScoped m = Some True)"
  proof -
    have "isMachineScoped md = isMachineScoped (getMetadata (Some (task_options task))
        (find (\<lambda>x. same (ext_identifier x) (task_identifier task)) userExtensions))"
      using doRun_metadata[OF scan run refl] by (simp add: install_metadata_isMachineScoped)
    then show ?thesis
      using h by (auto simp: getMetadata_simps js_or_def)
  qed
  show ?thesis using a b c by blast
qed

theorem isMachineScoped_monotone_witness:
  "isMachineScoped (getMetadata (Some ((example_options None None)\<lparr>opt_isMachineScoped := Some False\<rparr>))
      (Some (example_installed (Some (empty_metadata\<lparr>isMachineScoped := Some True\<rparr>))))) = Some True
   \<and> isMachineScoped (getMetadata (Some ((example_options None None)\<lparr>opt_isMachineScoped := Some True\<rparr>))
      None) = Some True
   \<and> map_option isMachineScoped (result_metadata (example_run (FromGallery (example_gallery False))
       ((example_options None None)\<lparr>opt_isMachineScoped := Some False\<rparr>)
       [example_installed (Some (empty_metadata\<lparr>isMachineScoped := Some True\<rparr>))])) = Some (Some True)"
proof -
  let ?o1 = "(example_options None None)\<lparr>opt_isMachineScoped := Some False\<rparr>"
  let ?o2 = "(example_options None None)\<lparr>opt_isMachineScoped := Some True\<rparr>"
  let ?m = "empty_metadata\<lparr>isMachineScoped := Some True\<rparr>"
  let ?e = "example_installed (Some ?m)"
  obtain l md t' s' where run:
    "example_run (FromGallery (example_gallery False)) ?o1 [?e] = (Inr (l, md), t', s')"
    using example_run_success by blast
  note th1 = isMachineScoped_monotone[of ?e ?m "Some ?o1" ?o1 None example_scanner "[?e]" "[?e]" "[?e]"
      example_same 1700000000 "example_task (FromGallery (example_gallery False)) ?o1"
      l md t' s']
  note th2 = isMachineScoped_monotone[of ?e ?m "Some ?o2" ?o2 None example_scanner "[?e]" "[?e]" "[?e]"
      example_same 1700000000 "example_task (FromGallery (example_gallery False)) ?o1"
      l md t' s']
  have "isMachineScoped md = Some True"
    using th1 run[unfolded example_run_def]
    by (simp add: example_scan example_match example_installed_simps)
  moreover have "isMachineScoped (getMetadata (Some ?o1) (Some ?e)) = Some True"
    using th1 by (simp add: example_installed_simps)
  moreover have "isMachineScoped (getMetadata (Some ?o2) None) = Some True"
    using th2 by simp
  ultimately show ?thesis
    using run by (simp add: result_metadata_def)
qed

section \<open>Properties of remoteAgentEnvironmentImpl.ts\<close>

subsection \<open>The when-clause rewrite\<close>

lemma starts_with_file:
  "starts_with ''file'' s \<longleftrightarrow> (\<exists>t. s = CHR ''f'' # CHR ''i'' # CHR ''l'' # CHR ''e'' # t)"
proof
  assume "starts_with ''file'' s"
  then have "take (length ''file'') s = ''file''" by (simp only: starts_with_def)
  then have "s = ''file'' @ drop (length ''file'') s" by (metis append_take_drop_id)
  then show "\<exists>t. s = CHR ''f'' # CHR ''i'' # CHR ''l'' # CHR ''e'' # t" by auto
next
  assume "\<exists>t. s = CHR ''f'' # CHR ''i'' # CHR ''l'' # CHR ''e'' # t"
  then show "starts_with ''file'' s" by (auto simp: starts_with_def)
qed

lemma replace_file_e:
  assumes "replace_file s = CHR ''e'' # r"
  shows "\<exists>t. s = CHR ''e'' # t"
  using assms by (cases s) (auto split: if_splits)

lemma replace_file_le:
  assumes "replace_file s = CHR ''l'' # CHR ''e'' # r"
  shows "\<exists>t. s = CHR ''l'' # CHR ''e'' # t"
proof (cases s)
  case Nil
  then show ?thesis using assms by simp
next
  case (Cons c cs)
  then have "c = CHR ''l''" "replace_file cs = CHR ''e'' # r"
    using assms by (auto split: if_splits)
  then show ?thesis using replace_file_e[of cs r] Cons by auto
qed

lemma replace_file_ile:
  assumes "replace_file s = CHR ''i'' # CHR ''l'' # CHR ''e'' # r"
  shows "\<exists>t. s = CHR ''i'' # CHR ''l'' # CHR ''e'' # t"
proof (cases s)
  case Nil
  then show ?thesis using assms by simp
next
  case (Cons c cs)
  then have "c = CHR ''i''" "replace_file cs = CHR ''l'' # CHR ''e'' # r"
    using assms by (auto split: if_splits)
  then show ?thesis using replace_file_le[of cs r] Cons by auto
qed

lemma regex_test_prefix:
  "\<not> regex_test ''file'' r \<Longrightarrow> \<not> regex_test ''file'' (''vscode-remote'' @ r)"
  by (simp add: starts_with_file)

lemma no_file_replace_file: "\<not> regex_test ''file'' (replace_file s)"
proof (induction s rule: replace_file.induct)
  case 1
  then show ?case by simp
next
  case (2 c cs)
  show ?case
  proof (cases "starts_with ''file'' (c # cs)")
    case True
    then have "\<not> regex_test ''file'' (replace_file (drop 4 (c # cs)))" by (rule 2(1))
    then have "\<not> regex_test ''file'' (''vscode-remote'' @ replace_file (drop 4 (c # cs)))"
      by (rule regex_test_prefix)
    then show ?thesis using True by (simp del: drop_Suc_Cons)
  next
    case False
    have "\<not> starts_with ''file'' (c # replace_file cs)"
    proof
      assume "starts_with ''file'' (c # replace_file cs)"
      then obtain t where "c = CHR ''f''" "replace_file cs = CHR ''i'' # CHR ''l'' # CHR ''e'' # t"
        by (auto simp: starts_with_file)
      then have "starts_with ''file'' (c # cs)"
        using replace_file_ile[of cs t] by (auto simp: starts_with_file)
      then show False using False by simp
    qed
    then show ?thesis using 2(2) False by simp
  qed
qed

lemma replace_file_id: "\<not> regex_test ''file'' s \<Longrightarrow> replace_file s = s"
  by (induction s rule: replace_file.induct) auto

lemma replace_file_idem: "replace_file (replace_file s) = replace_file s"
  by (rule replace_file_id) (rule no_file_replace_file)

lemma stableD: "stable f \<Longrightarrow> f x = Inr y \<Longrightarrow> f y = Inr y"
  by (auto simp: stable_def)

lemma stable_for_each:
  assumes "stable f"
  shows "stable (for_each f)"
  unfolding stable_def
proof (intro allI impI)
  fix xs ys
  assume "for_each f xs = Inr ys"
  then show "for_each f ys = Inr ys"
  proof (induction xs arbitrary: ys)
    case Nil
    then show ?case by simp
  next
    case (Cons x xs)
    from Cons.prems obtain y ys' where
      y: "f x = Inr y" and ys': "for_each f xs = Inr ys'" and eq: "ys = y # ys'"
      by (auto split: sum.splits)
    have "f y = Inr y" using assms y by (rule stableD)
    moreover have "for_each f ys' = Inr ys'" using ys' by (rule Cons.IH)
    ultimately show ?case using eq by simp
  qed
qed

lemma stable_if_present:
  assumes "stable f"
  shows "stable (if_present f)"
  unfolding stable_def if_present_def
  using stableD[OF assms] by (auto split: option.splits sum.splits)

lemma mapResourceSchemeValue_idem:
  "mapResourceSchemeValue (mapResourceSchemeValue v a) b = mapResourceSchemeValue v a"
  by (simp add: mapResourceSchemeValue_def replace_file_idem)

lemma mapEquals_stable: "expr_map valid (mapEquals key v) = Inr (mapEquals key v)"
  by (cases v) (simp_all add: mapEquals_def mapResourceSchemeValue_idem)

lemma mapNotEquals_stable: "expr_map valid (mapNotEquals key v) = Inr (mapNotEquals key v)"
  by (cases v) (simp_all add: mapNotEquals_def mapResourceSchemeValue_idem)

lemma mapResourceRegExpValue_eq:
  "mapResourceRegExpValue valid r =
     (if valid (replace_file (re_source r))
      then Inr \<lparr>re_source = replace_file (re_source r), re_global = re_global r,
                re_ignoreCase = re_ignoreCase r, re_multiline = re_multiline r,
                re_dotAll = False, re_unicode = False, re_sticky = False\<rparr>
      else Inl (SyntaxError (replace_file (re_source r))))"
  by (simp add: mapResourceRegExpValue_def new_RegExp_def mapResourceSchemeValue_def Let_def)

lemma mapResourceRegExpValue_stable:
  assumes "mapResourceRegExpValue valid r = Inr r'"
  shows "mapResourceRegExpValue valid r' = Inr r'"
  using assms
  by (auto simp: mapResourceRegExpValue_eq replace_file_idem split: if_splits)

lemma mapRegex_stable:
  assumes "mapRegex valid key regexp = Inr e'"
  shows "expr_map valid e' = Inr e'"
proof (cases "key = ''resourceScheme'' \<and> regexp \<noteq> None")
  case True
  then obtain r where r: "regexp = Some r" by auto
  then obtain r' where r': "mapResourceRegExpValue valid r = Inr r'"
    and e': "e' = ContextKeyRegexExpr key (Some r')"
    using assms True by (auto simp: mapRegex_def split: sum.splits)
  show ?thesis
    using mapResourceRegExpValue_stable[OF r'] True by (simp add: e' mapRegex_def)
next
  case False
  then have "e' = ContextKeyRegexExpr key regexp"
    using assms by (auto simp: mapRegex_def split: option.splits)
  then show ?thesis using False by (auto simp: mapRegex_def split: option.splits)
qed

lemma expr_map_stable:
  "expr_map valid e = Inr e' \<Longrightarrow> expr_map valid e' = Inr e'"
  "expr_map_list valid es = Inr es' \<Longrightarrow> expr_map_list valid es' = Inr es'"
proof (induction valid e and valid es arbitrary: e' and es' rule: expr_map_expr_map_list.induct)
  case (1 valid key)
  then show ?case by (auto simp: mapDefined_def)
next
  case (2 valid key)
  then show ?case by (auto simp: mapNot_def)
next
  case (3 valid key v)
  then show ?case using mapEquals_stable by auto
next
  case (4 valid key v)
  then show ?case using mapNotEquals_stable by auto
next
  case (5 valid key regexp)
  then show ?case using mapRegex_stable by simp
next
  case (6 valid key valueKey)
  then show ?case by (auto simp: mapIn_def)
next
  case (7 valid es)
  then show ?case by (auto split: sum.splits)
next
  case (8 valid es)
  then show ?case by (auto split: sum.splits)
next
  case (9 valid)
  then show ?case by simp
next
  case (10 valid e es)
  then show ?case by (auto split: sum.splits)
qed

lemma stable_massageWhenUser:
  assumes rt: "\<And>w e e'. regex_test ''resourceScheme'' w \<Longrightarrow> deserialize w = Some e \<Longrightarrow>
      expr_map valid e = Inr e' \<Longrightarrow> deserialize (serialize e') = Some e'"
  shows "stable (massageWhenUser valid deserialize serialize)"
  unfolding stable_def
proof (intro allI impI)
  fix x y
  assume run: "massageWhenUser valid deserialize serialize x = Inr y"
  show "massageWhenUser valid deserialize serialize y = Inr y"
  proof (cases "\<exists>el w e. x = Some el \<and> when_clause el = Some w \<and> w \<noteq> []
      \<and> regex_test ''resourceScheme'' w \<and> deserialize w = Some e")
    case True
    then obtain el w e where x: "x = Some el" "when_clause el = Some w" "w \<noteq> []"
      "regex_test ''resourceScheme'' w" "deserialize w = Some e" by blast
    then obtain e' where e': "expr_map valid e = Inr e'"
      and y: "y = Some (el\<lparr>when_clause := Some (serialize e')\<rparr>)"
      using run by (auto simp: massageWhenUser_def split: sum.splits)
    have d: "deserialize (serialize e') = Some e'" using rt[OF x(4,5) e'] .
    have m: "expr_map valid e' = Inr e'" using e' by (rule expr_map_stable)
    show ?thesis
      unfolding y by (simp add: massageWhenUser_def d m)
  next
    case False
    then have "y = x"
      using run by (auto simp: massageWhenUser_def split: option.splits if_splits)
    then show ?thesis using run by simp
  qed
qed

lemma stable_massageWhenUserArr:
  assumes "stable (massageWhenUser valid deserialize serialize)"
  shows "stable (massageWhenUserArr valid deserialize serialize)"
  unfolding stable_def massageWhenUserArr_def
  using stableD[OF assms] stableD[OF stable_for_each[OF assms]]
  by (auto split: WhenUsers.splits sum.splits)

lemma stable_massageLocWhenUser:
  assumes "stable (massageWhenUser valid deserialize serialize)"
  shows "stable (massageLocWhenUser valid deserialize serialize)"
proof -
  have "stable (\<lambda>(loc :: string, elements).
          case massageWhenUserArr valid deserialize serialize elements of
            Inl e \<Rightarrow> Inl e
          | Inr elements' \<Rightarrow> Inr (loc, elements'))"
    unfolding stable_def
    using stableD[OF stable_massageWhenUserArr[OF assms]]
    by (auto split: sum.splits)
  then have "stable (for_each (\<lambda>(loc :: string, elements).
          case massageWhenUserArr valid deserialize serialize elements of
            Inl e \<Rightarrow> Inl e
          | Inr elements' \<Rightarrow> Inr (loc, elements')))"
    by (rule stable_for_each)
  then show ?thesis
    unfolding stable_def massageLocWhenUser_def by blast
qed

lemma stable_massageExtension:
  assumes "stable (massageWhenUser valid deserialize serialize)"
  shows "stable (massageExtension valid deserialize serialize)"
  unfolding stable_def
proof (intro allI impI)
  fix x y
  assume run: "massageExtension valid deserialize serialize x = Inr y"
  note loc = stableD[OF stable_if_present[OF stable_massageLocWhenUser[OF assms]]]
  note arr = stableD[OF stable_if_present[OF stable_massageWhenUserArr[OF assms]]]
  show "massageExtension valid deserialize serialize y = Inr y"
  proof (cases "contributes x")
    case None
    then show ?thesis using run by (simp add: massageExtension_def)
  next
    case (Some c)
    then obtain m k v where
      m: "if_present (massageLocWhenUser valid deserialize serialize) (menus c) = Inr m" and
      k: "if_present (massageWhenUserArr valid deserialize serialize) (keybindings c) = Inr k" and
      v: "if_present (massageLocWhenUser valid deserialize serialize) (views c) = Inr v" and
      y: "y = x\<lparr>contributes := Some (c\<lparr>menus := m, keybindings := k, views := v\<rparr>)\<rparr>"
      using run by (auto simp: massageExtension_def split: sum.splits)
    show ?thesis
      unfolding y by (simp add: massageExtension_def loc[OF m] arr[OF k] loc[OF v])
  qed
qed

text \<open>
  Claim C6. The parser and printer of when-expressions are parameters, and the
  specification asks that they be round-trip functions; the first hypothesis states
  this for what the rewriter prints: an expression printed after the rewrite of a
  parsed \<open>when\<close> is parsed back to the tree that was printed. Under it, a descriptor
  list that \<open>massageWhenConditions\<close> has rewritten is left as it is by a second run,
  so every \<open>when\<close> after two runs is the \<open>when\<close> after one.
\<close>

theorem massageWhenConditions_idempotent:
  assumes "\<And>w e e'. regex_test ''resourceScheme'' w \<Longrightarrow> deserialize w = Some e \<Longrightarrow>
      expr_map valid e = Inr e' \<Longrightarrow> deserialize (serialize e') = Some e'"
    and "massageWhenConditions valid deserialize serialize extensions = Inr extensions'"
  shows "massageWhenConditions valid deserialize serialize extensions' = Inr extensions'"
proof -
  have "stable (massageWhenUser valid deserialize serialize)"
    using assms(1) by (rule stable_massageWhenUser)
  then have "stable (for_each (massageExtension valid deserialize serialize))"
    by (intro stable_for_each stable_massageExtension)
  then show ?thesis
    using assms(2) unfolding massageWhenConditions_def by (rule stableD)
qed

text \<open>
  Claim C7. An entry whose \<open>when\<close> does not contain \<open>resourceScheme\<close>, or whose \<open>when\<close>
  the parser rejects, is returned as it is by \<open>_massageWhenUser\<close>, and no exception
  is thrown.
\<close>

theorem massageWhenUser_untouched:
  assumes "when_clause el = Some w"
    and "\<not> regex_test ''resourceScheme'' w \<or> deserialize w = None"
  shows "massageWhenUser valid deserialize serialize (Some el) = Inr (Some el)"
  using assms by (auto simp: massageWhenUser_def)

lemma example_tests:
  "regex_test ''resourceScheme'' ''resourceScheme == file''"
  "\<not> regex_test ''resourceScheme'' ''editorFocus''"
  "regex_test ''resourceScheme'' ''resourceScheme ==''"
  by (simp_all add: starts_with_def)

lemma example_massaged_when_neq: "example_massaged_when \<noteq> ''resourceScheme == file''"
  by (simp add: example_massaged_when_def quote_def)

lemma example_deserialize_simps:
  "example_deserialize ''resourceScheme == file'' =
     Some (ContextKeyEqualsExpr ''resourceScheme'' (JString ''file''))"
  "example_deserialize example_massaged_when =
     Some (ContextKeyEqualsExpr ''resourceScheme'' (JString ''vscode-remote''))"
  using example_massaged_when_neq by (simp_all add: example_deserialize_def)

lemma example_deserialize_cases:
  assumes "example_deserialize w = Some e"
  shows "e = ContextKeyEqualsExpr ''resourceScheme'' (JString ''file'')
       \<or> e = ContextKeyEqualsExpr ''resourceScheme'' (JString ''vscode-remote'')"
  using assms unfolding example_deserialize_def
  by (cases "w = ''resourceScheme == file''"; cases "w = example_massaged_when") simp_all

lemma example_mapEquals:
  "mapEquals ''resourceScheme'' (JString ''file'') =
     ContextKeyEqualsExpr ''resourceScheme'' (JString ''vscode-remote'')"
  "mapEquals ''resourceScheme'' (JString ''vscode-remote'') =
     ContextKeyEqualsExpr ''resourceScheme'' (JString ''vscode-remote'')"
  by (simp_all add: mapEquals_def mapResourceSchemeValue_def starts_with_file)

lemma example_serialize_massaged:
  "example_serialize (ContextKeyEqualsExpr ''resourceScheme'' (JString ''vscode-remote'')) =
     example_massaged_when"
  by (simp add: example_massaged_when_def)

lemma example_roundtrip:
  assumes "example_deserialize w = Some e" and "expr_map valid e = Inr e'"
  shows "example_deserialize (example_serialize e') = Some e'"
proof -
  have "e' = ContextKeyEqualsExpr ''resourceScheme'' (JString ''vscode-remote'')"
    using example_deserialize_cases[OF assms(1)] assms(2)
    by (auto simp: example_mapEquals)
  then show ?thesis
    by (simp only: example_serialize_massaged example_deserialize_simps)
qed

lemma example_massageWhenUser:
  "massageWhenUser valid example_deserialize example_serialize
     (Some (example_entry ''resourceScheme == file'')) =
   Inr (Some (example_entry example_massaged_when))"
  "massageWhenUser valid example_deserialize example_serialize
     (Some (example_entry ''editorFocus'')) = Inr (Some (example_entry ''editorFocus''))"
  "massageWhenUser valid example_deserialize example_serialize None = Inr None"
proof -
  have "expr_map valid (ContextKeyEqualsExpr ''resourceScheme'' (JString ''file'')) =
      Inr (ContextKeyEqualsExpr ''resourceScheme'' (JString ''vscode-remote''))"
    by (simp add: example_mapEquals)
  then show "massageWhenUser valid example_deserialize example_serialize
     (Some (example_entry ''resourceScheme == file'')) =
   Inr (Some (example_entry example_massaged_when))"
    unfolding massageWhenUser_def
    by (simp add: example_entry_def example_tests example_deserialize_simps
        example_serialize_massaged del: regex_test.simps example_serialize.simps expr_map.simps)
  show "massageWhenUser valid example_deserialize example_serialize
     (Some (example_entry ''editorFocus'')) = Inr (Some (example_entry ''editorFocus''))"
    unfolding massageWhenUser_def
    by (simp add: example_entry_def example_tests del: regex_test.simps)
  show "massageWhenUser valid example_deserialize example_serialize None = Inr None"
    by (simp add: massageWhenUser_def)
qed

lemma example_massageExtension:
  "massageExtension valid example_deserialize example_serialize
     (example_contributing ''resourceScheme == file'') =
   Inr (example_contributing example_massaged_when)"
  by (simp add: massageExtension_def example_contributing_def example_contributes_def
      if_present_def massageLocWhenUser_def massageWhenUserArr_def example_massageWhenUser)

lemma example_massageWhenConditions:
  "massageWhenConditions valid example_deserialize example_serialize
     [example_contributing ''resourceScheme == file''] =
   Inr [example_contributing example_massaged_when]"
  unfolding massageWhenConditions_def for_each.simps example_massageExtension
  by (simp only: sum.case)

theorem massageWhenConditions_idempotent_witness:
  "massageWhenConditions (\<lambda>p. True) example_deserialize example_serialize
     [example_contributing ''resourceScheme == file''] =
   Inr [example_contributing example_massaged_when]
   \<and> massageWhenConditions (\<lambda>p. True) example_deserialize example_serialize
     [example_contributing example_massaged_when] =
   Inr [example_contributing example_massaged_when]"
proof -
  have run: "massageWhenConditions (\<lambda>p. True) example_deserialize example_serialize
     [example_contributing ''resourceScheme == file''] =
   Inr [example_contributing example_massaged_when]"
    by (rule example_massageWhenConditions)
  have again: "massageWhenConditions (\<lambda>p. True) example_deserialize example_serialize
     [example_contributing example_massaged_when] =
   Inr [example_contributing example_massaged_when]"
  proof (rule massageWhenConditions_idempotent[where extensions = "[example_contributing ''resourceScheme == file'']"])
    show "massageWhenConditions (\<lambda>p. True) example_deserialize example_serialize
     [example_contributing ''resourceScheme == file''] =
       Inr [example_contributing example_massaged_when]"
      by (rule run)
  next
    fix w e e'
    assume "example_deserialize w = Some e" and "expr_map (\<lambda>p. True) e = Inr e'"
    then show "example_deserialize (example_serialize e') = Some e'"
      by (rule example_roundtrip)
  qed
  from run again show ?thesis by (rule conjI)
qed

lemma example_rejects: "example_deserialize ''resourceScheme =='' = None"
  by (simp add: example_deserialize_def example_massaged_when_def quote_def)

lemma example_entry_when: "when_clause (example_entry w) = Some w"
  by (simp add: example_entry_def)

theorem massageWhenUser_untouched_witness:
  "massageWhenUser (\<lambda>p. True) example_deserialize example_serialize
     (Some (example_entry ''editorFocus'')) = Inr (Some (example_entry ''editorFocus''))
   \<and> massageWhenUser (\<lambda>p. True) example_deserialize example_serialize
     (Some (example_entry ''resourceScheme =='')) = Inr (Some (example_entry ''resourceScheme ==''))"
proof -
  have a: "massageWhenUser (\<lambda>p. True) example_deserialize example_serialize
     (Some (example_entry ''editorFocus'')) = Inr (Some (example_entry ''editorFocus''))"
    by (rule massageWhenUser_untouched[where w = "''editorFocus''" and deserialize = example_deserialize, OF example_entry_when
          disjI1[OF example_tests(2)]])
  have b: "massageWhenUser (\<lambda>p. True) example_deserialize example_serialize
     (Some (example_entry ''resourceScheme =='')) = Inr (Some (example_entry ''resourceScheme ==''))"
    by (rule massageWhenUser_untouched[where w = "''resourceScheme ==''" and deserialize = example_deserialize, OF example_entry_when
          disjI2[OF example_rejects]])
  from a b show ?thesis by (rule conjI)
qed

subsection \<open>The log path of the extension host\<close>

lemma of_char_digit_char: "d < 10 \<Longrightarrow> of_char (digit_char d) = 48 + d"
  by (simp add: digit_char_def)

lemma undecimal_decimal: "undecimal (decimal n) = n"
proof (induction n rule: decimal.induct)
  case (1 n)
  show ?case
  proof (cases "n < 10")
    case True
    then show ?thesis
      by (subst decimal.simps) (simp add: undecimal_def of_char_digit_char)
  next
    case False
    have "undecimal (decimal n) = 10 * undecimal (decimal (n div 10)) + n mod 10"
      using False
      by (subst decimal.simps) (simp add: undecimal_def of_char_digit_char)
    then show ?thesis using 1 False by simp
  qed
qed

lemma decimal_inj: "decimal m = decimal n \<Longrightarrow> m = n"
  by (metis undecimal_decimal)

lemma number_increment_below: "n < 2 ^ 53 \<Longrightarrow> number_increment n = n + 1"
  by (simp add: number_increment_def)

lemma number_increment_limit: "number_increment (2 ^ 53) = 2 ^ 53"
  by (simp add: number_increment_def)

lemma snd_getEnvironmentData:
  "snd (getEnvironmentData join URI_file pid os this n) = number_increment n"
  by (simp add: getEnvironmentData_def)

lemma later_namePool:
  assumes "n \<le> 2 ^ 53"
  shows "((\<lambda>n. snd (getEnvironmentData join URI_file pid os this n)) ^^ k) n =
    min (n + k) (2 ^ 53)"
proof (induction k)
  case 0
  then show ?case using assms by simp
next
  case (Suc k)
  show ?case
  proof (cases "n + k < 2 ^ 53")
    case True
    then have "number_increment (min (n + k) (2 ^ 53)) = n + k + 1"
      using number_increment_below[of "n + k"] by (simp add: min_def)
    then show ?thesis using Suc True by (simp add: snd_getEnvironmentData min_def)
  next
    case False
    then have "number_increment (min (n + k) (2 ^ 53)) = 2 ^ 53"
      using number_increment_limit by (simp add: min_def)
    then show ?thesis using Suc False by (simp add: snd_getEnvironmentData min_def)
  qed
qed

text \<open>
  Claim C8 as stated fails once the counter has reached \<open>2^53\<close>, which it does after
  \<open>2^53 - 1\<close> calls from its initial value: the increment leaves it at \<open>2^53\<close>, and two
  successive calls return the same log path.
\<close>

theorem getEnvironmentData_counter_limit_counterexample:
  "((\<lambda>n. snd (example_getEnvironmentData n)) ^^ (2 ^ 53 - 1)) initial_namePool = 2 ^ 53
   \<and> snd (example_getEnvironmentData (2 ^ 53)) = 2 ^ 53
   \<and> dto_extensionHostLogsPath (fst (example_getEnvironmentData (2 ^ 53))) =
       dto_extensionHostLogsPath
         (fst (example_getEnvironmentData (snd (example_getEnvironmentData (2 ^ 53)))))"
proof -
  have "initial_namePool \<le> 2 ^ 53" by (simp add: initial_namePool_def)
  then have "((\<lambda>n. snd (getEnvironmentData example_join example_URI_file 4242 Linux
      example_channel n)) ^^ (2 ^ 53 - 1)) initial_namePool =
      min (initial_namePool + (2 ^ 53 - 1)) (2 ^ 53)"
    by (rule later_namePool)
  also have "\<dots> = 2 ^ 53" by (simp add: initial_namePool_def)
  finally have a: "((\<lambda>n. snd (example_getEnvironmentData n)) ^^ (2 ^ 53 - 1))
      initial_namePool = 2 ^ 53"
    unfolding example_getEnvironmentData_def .
  have b: "snd (example_getEnvironmentData (2 ^ 53)) = 2 ^ 53"
    unfolding example_getEnvironmentData_def snd_getEnvironmentData
    by (rule number_increment_limit)
  have c: "dto_extensionHostLogsPath (fst (example_getEnvironmentData (2 ^ 53))) =
       dto_extensionHostLogsPath
         (fst (example_getEnvironmentData (snd (example_getEnvironmentData (2 ^ 53)))))"
    unfolding b by (rule refl)
  from a b c show ?thesis by (intro conjI)
qed

text \<open>
  Claim C8, as the code has it. For two calls of \<open>getEnvironmentData\<close> in one process,
  the second after the first with any number \<open>k\<close> of calls in between (\<open>k = 0\<close>:
  successive calls), where the counter is below \<open>2^53\<close> at the first call: both log
  paths of the extension host are \<open>URI.file(join(logsPath, 'exthost' + n))\<close> for the
  same \<open>logsPath\<close>, the number of the second is greater than the number of the first,
  and the two paths are distinct. \<open>join\<close> and \<open>URI.file\<close> are parameters: the fourth
  hypothesis says that they keep apart two names of the form \<open>exthostN\<close>.
\<close>

theorem getEnvironmentData_fresh_log_paths:
  assumes "getEnvironmentData join URI_file pid os this n0 = (d1, n1)"
    and "n2 = ((\<lambda>n. snd (getEnvironmentData join URI_file pid os this n)) ^^ k) n1"
    and "getEnvironmentData join URI_file pid os this n2 = (d2, n3)"
    and "inj_on (\<lambda>name. URI_file (join (logsPath (environmentService this)) name)) exthost_names"
    and "n0 < 2 ^ 53"
  shows "\<exists>s1 s2.
      dto_extensionHostLogsPath d1 =
        URI_file (join (logsPath (environmentService this)) (''exthost'' @ decimal s1))
    \<and> dto_extensionHostLogsPath d2 =
        URI_file (join (logsPath (environmentService this)) (''exthost'' @ decimal s2))
    \<and> s1 < s2
    \<and> dto_extensionHostLogsPath d1 \<noteq> dto_extensionHostLogsPath d2"
proof -
  have "n1 = number_increment n0" and p1: "dto_extensionHostLogsPath d1 =
        URI_file (join (logsPath (environmentService this)) (''exthost'' @ decimal n0))"
    using assms(1) by (auto simp: getEnvironmentData_def)
  then have n1: "n1 = n0 + 1" using assms(5) by (simp add: number_increment_below)
  then have "n1 \<le> 2 ^ 53" using assms(5) by simp
  then have n2: "n2 = min (n1 + k) (2 ^ 53)" using assms(2) by (simp add: later_namePool)
  have p2: "dto_extensionHostLogsPath d2 =
        URI_file (join (logsPath (environmentService this)) (''exthost'' @ decimal n2))"
    using assms(3) by (auto simp: getEnvironmentData_def)
  have lt: "n0 < n2" using n1 n2 assms(5) by (simp add: min_def)
  have "''exthost'' @ decimal n0 \<in> exthost_names" "''exthost'' @ decimal n2 \<in> exthost_names"
    by (auto simp: exthost_names_def)
  moreover have "''exthost'' @ decimal n0 \<noteq> ''exthost'' @ decimal n2"
    using lt decimal_inj by fastforce
  ultimately have "dto_extensionHostLogsPath d1 \<noteq> dto_extensionHostLogsPath d2"
    unfolding p1 p2 using assms(4) by (auto dest: inj_onD)
  then show ?thesis using p1 p2 lt by blast
qed

lemma example_inj:
  "inj_on (\<lambda>name. example_URI_file (example_join (logsPath (environmentService example_channel)) name))
     exthost_names"
  by (simp add: inj_on_def example_URI_file_def example_join_def)

theorem getEnvironmentData_fresh_log_paths_witness:
  "dto_extensionHostLogsPath (fst (example_getEnvironmentData initial_namePool)) \<noteq>
   dto_extensionHostLogsPath
     (fst (example_getEnvironmentData (snd (example_getEnvironmentData initial_namePool))))"
proof -
  obtain d1 n1 where c1: "example_getEnvironmentData initial_namePool = (d1, n1)"
    by (cases "example_getEnvironmentData initial_namePool")
  obtain d2 n3 where c2: "example_getEnvironmentData n1 = (d2, n3)"
    by (cases "example_getEnvironmentData n1")
  have k: "n1 = ((\<lambda>n. snd (getEnvironmentData example_join example_URI_file 4242 Linux
      example_channel n)) ^^ 0) n1"
    by simp
  have below: "initial_namePool < 2 ^ 53" by (simp add: initial_namePool_def)
  have "\<exists>s1 s2.
      dto_extensionHostLogsPath d1 =
        example_URI_file (example_join (logsPath (environmentService example_channel))
          (''exthost'' @ decimal s1))
    \<and> dto_extensionHostLogsPath d2 =
        example_URI_file (example_join (logsPath (environmentService example_channel))
          (''exthost'' @ decimal s2))
    \<and> s1 < s2
    \<and> dto_extensionHostLogsPath d1 \<noteq> dto_extensionHostLogsPath d2"
    by (rule getEnvironmentData_fresh_log_paths[OF c1[unfolded example_getEnvironmentData_def] k
          c2[unfolded example_getEnvironmentData_def] example_inj below])
  then show ?thesis using c1 c2 by auto
qed

lemma decimal_examples: "decimal (Suc 0) = ''1''" "decimal 2 = ''2''"
  by code_simp+

text \<open>Scenario D of the specification, from the initial counter.\<close>

lemma getEnvironmentData_scenario_D:
  "dto_extensionHostLogsPath (fst (example_getEnvironmentData 1)) = ''file:///var/log/app/exthost1''"
  "snd (example_getEnvironmentData 1) = 2"
  "dto_extensionHostLogsPath (fst (example_getEnvironmentData 2)) = ''file:///var/log/app/exthost2''"
  by (simp_all add: example_getEnvironmentData_def getEnvironmentData_def decimal_examples
      number_increment_def
      example_channel_def example_environment_def example_join_def example_URI_file_def)

subsection \<open>The merge\<close>

lemma map_of_map_set: "map_of (map_set k v m) = (map_of m)(k \<mapsto> v)"
  by (induction m) (auto simp: fun_eq_iff)

lemma keys_map_set:
  "map fst (map_set k v m) = (if k \<in> fst ` set m then map fst m else map fst m @ [k])"
  by (induction m) (force simp: image_iff)+

lemma distinct_map_set: "distinct (map fst m) \<Longrightarrow> distinct (map fst (map_set k v m))"
  by (simp add: keys_map_set)

lemma keyed_map_set:
  "keyed toKey m \<Longrightarrow> keyed toKey (map_set (toKey (desc_identifier e)) e m)"
  unfolding keyed_def by (induction m) (auto split: if_splits)

lemma wf_set_builtin: "wf_result toKey m \<Longrightarrow> wf_result toKey (set_builtin toKey m x)"
  by (auto simp: wf_result_def set_builtin_def distinct_map_set keyed_map_set split: option.splits)

lemma set_developed_eq: "set_developed toKey = set_builtin toKey"
  by (simp add: fun_eq_iff set_developed_def set_builtin_def)

lemma fst_set_installed: "fst (set_installed toKey s x) = set_builtin toKey (fst s) x"
  by (simp add: set_installed_def set_builtin_def split: option.splits)

lemma fst_foldl_set_installed:
  "fst (foldl (set_installed toKey) s src) = foldl (set_builtin toKey) (fst s) src"
  by (induction src arbitrary: s) (simp_all add: fst_set_installed)

lemma wf_foldl: "wf_result toKey m \<Longrightarrow> wf_result toKey (foldl (set_builtin toKey) m src)"
  by (induction src arbitrary: m) (simp_all add: wf_set_builtin)

lemma keys_of_simps:
  "keys_of toKey [] = []"
  "keys_of toKey (None # src) = keys_of toKey src"
  "keys_of toKey (Some e # src) = toKey (desc_identifier e) # keys_of toKey src"
  by (simp_all add: keys_of_def List.map_filter_simps)

lemma foldl_absent:
  "k \<notin> set (keys_of toKey src) \<Longrightarrow>
   map_of (foldl (set_builtin toKey) m src) k = map_of m k"
proof (induction src arbitrary: m)
  case Nil
  then show ?case by simp
next
  case (Cons x src)
  then show ?case
    by (cases x) (auto simp: keys_of_simps set_builtin_def map_of_map_set)
qed

lemma foldl_present:
  "distinct (keys_of toKey src) \<Longrightarrow> Some e \<in> set src \<Longrightarrow>
   map_of (foldl (set_builtin toKey) m src) (toKey (desc_identifier e)) = Some e"
proof (induction src arbitrary: m)
  case Nil
  then show ?case by simp
next
  case (Cons x src)
  show ?case
  proof (cases "x = Some e")
    case True
    then have "toKey (desc_identifier e) \<notin> set (keys_of toKey src)"
      using Cons.prems(1) by (simp add: keys_of_simps)
    then have "map_of (foldl (set_builtin toKey) (set_builtin toKey m x) src)
        (toKey (desc_identifier e)) = map_of (set_builtin toKey m x) (toKey (desc_identifier e))"
      by (rule foldl_absent)
    also have "\<dots> = Some e"
      using True by (simp add: set_builtin_def map_of_map_set)
    finally show ?thesis by simp
  next
    case False
    then have "Some e \<in> set src" using Cons.prems(2) by simp
    moreover have "distinct (keys_of toKey src)"
      using Cons.prems(1) by (cases x) (simp_all add: keys_of_simps)
    ultimately show ?thesis using Cons.IH by simp
  qed
qed

lemma key_in_keys_of:
  "k \<in> set (keys_of toKey src) \<longleftrightarrow> (\<exists>e. Some e \<in> set src \<and> toKey (desc_identifier e) = k)"
proof (induction src)
  case Nil
  then show ?case by (simp add: keys_of_simps)
next
  case (Cons x src)
  then show ?case by (cases x) (auto simp: keys_of_simps)
qed

lemma filter_key_wf:
  "wf_result toKey m \<Longrightarrow>
   filter (\<lambda>x. toKey (desc_identifier x) = k) (map snd m) =
     (case map_of m k of None \<Rightarrow> [] | Some v \<Rightarrow> [v])"
proof (induction m)
  case Nil
  then show ?case by simp
next
  case (Cons a m)
  obtain k' v' where a: "a = (k', v')" by (cases a)
  have wf: "wf_result toKey m" and key: "toKey (desc_identifier v') = k'" and
    fresh: "k' \<notin> fst ` set m"
    using Cons.prems by (auto simp: wf_result_def keyed_def a)
  show ?case
  proof (cases "k' = k")
    case True
    then have "map_of m k = None" using fresh by (simp add: map_of_eq_None_iff)
    then show ?thesis using Cons.IH[OF wf] True key a by simp
  next
    case False
    then show ?thesis using Cons.IH[OF wf] key a by simp
  qed
qed

lemma scanExtensions_result:
  "fst (scanExtensions toKey b i d) =
     map snd (foldl (set_builtin toKey) (foldl (set_builtin toKey)
       (foldl (set_builtin toKey) [] b) i) d)"
  by (simp add: scanExtensions_def Let_def set_developed_eq fst_foldl_set_installed)

lemma wf_merged:
  "wf_result toKey (foldl (set_builtin toKey) (foldl (set_builtin toKey)
       (foldl (set_builtin toKey) [] b) i) d)"
  by (intro wf_foldl) (simp add: wf_result_def keyed_def)

text \<open>
  Claim C1. When each of the three sources yields at most one descriptor per identity
  key, the merged result of \<open>scanExtensions\<close> has exactly one entry for every key that
  occurs in more than one source: the entry of the developed source if the key occurs
  there, else the entry of the installed source, else the entry of the built-in source.
\<close>

theorem scanExtensions_precedence:
  assumes "distinct (keys_of toKey builtinExtensions)"
    and "distinct (keys_of toKey installedExtensions)"
    and "distinct (keys_of toKey developedExtensions)"
    and "2 \<le> length (filter (\<lambda>src. k \<in> set (keys_of toKey src))
            [builtinExtensions, installedExtensions, developedExtensions])"
  shows "\<exists>e. filter (\<lambda>x. toKey (desc_identifier x) = k)
            (fst (scanExtensions toKey builtinExtensions installedExtensions
               developedExtensions)) = [e]
          \<and> (if k \<in> set (keys_of toKey developedExtensions)
               then Some e \<in> set developedExtensions
             else if k \<in> set (keys_of toKey installedExtensions)
               then Some e \<in> set installedExtensions
             else Some e \<in> set builtinExtensions)"
proof -
  let ?m1 = "foldl (set_builtin toKey) [] builtinExtensions"
  let ?m2 = "foldl (set_builtin toKey) ?m1 installedExtensions"
  let ?m3 = "foldl (set_builtin toKey) ?m2 developedExtensions"
  have res: "filter (\<lambda>x. toKey (desc_identifier x) = k)
      (fst (scanExtensions toKey builtinExtensions installedExtensions developedExtensions)) =
      (case map_of ?m3 k of None \<Rightarrow> [] | Some v \<Rightarrow> [v])"
    by (simp add: scanExtensions_result filter_key_wf[OF wf_merged])
  have some: "k \<in> set (keys_of toKey builtinExtensions)
      \<or> k \<in> set (keys_of toKey installedExtensions)
      \<or> k \<in> set (keys_of toKey developedExtensions)"
    using assms(4) by (auto split: if_splits)
  show ?thesis
  proof (cases "k \<in> set (keys_of toKey developedExtensions)")
    case True
    then obtain e where e: "Some e \<in> set developedExtensions" "toKey (desc_identifier e) = k"
      by (auto simp: key_in_keys_of)
    have "map_of ?m3 k = Some e"
      using foldl_present[OF assms(3) e(1)] e(2) by simp
    then show ?thesis using res True e by simp
  next
    case nd: False
    show ?thesis
    proof (cases "k \<in> set (keys_of toKey installedExtensions)")
      case True
      then obtain e where e: "Some e \<in> set installedExtensions" "toKey (desc_identifier e) = k"
        by (auto simp: key_in_keys_of)
      have "map_of ?m3 k = map_of ?m2 k" using nd by (rule foldl_absent)
      also have "\<dots> = Some e" using foldl_present[OF assms(2) e(1)] e(2) by simp
      finally show ?thesis using res True nd e by simp
    next
      case ni: False
      then have "k \<in> set (keys_of toKey builtinExtensions)" using some nd by simp
      then obtain e where e: "Some e \<in> set builtinExtensions" "toKey (desc_identifier e) = k"
        by (auto simp: key_in_keys_of)
      have "map_of ?m3 k = map_of ?m2 k" using nd by (rule foldl_absent)
      also have "\<dots> = map_of ?m1 k" using ni by (rule foldl_absent)
      also have "\<dots> = Some e" using foldl_present[OF assms(1) e(1)] e(2) by simp
      finally show ?thesis using res ni nd e by simp
    qed
  qed
qed

lemma example_desc_simps:
  "desc_identifier example_builtin = ''acme.lint''"
  "desc_identifier example_user = ''acme.lint''"
  "desc_location example_builtin = ''/sys/acme.lint''"
  "desc_location example_user = ''/user/acme.lint''"
  by (simp_all add: example_builtin_def example_user_def)

theorem scanExtensions_precedence_witness:
  "filter (\<lambda>x. desc_identifier x = ''acme.lint'')
     (fst (scanExtensions (\<lambda>i. i) [Some example_builtin, None] [Some example_user] []))
   = [example_user]"
proof -
  have "\<exists>e. filter (\<lambda>x. desc_identifier x = ''acme.lint'')
            (fst (scanExtensions (\<lambda>i. i) [Some example_builtin, None] [Some example_user] []))
          = [e] \<and> Some e \<in> set [Some example_user]"
    using scanExtensions_precedence[of "\<lambda>i. i" "[Some example_builtin, None]" "[Some example_user]" "[]"
        "''acme.lint''"]
    by (simp add: keys_of_simps example_desc_simps)
  then show ?thesis by auto
qed

text \<open>Scenario A of the specification, with its warning.\<close>

lemma scanExtensions_scenario_A:
  "scanExtensions (\<lambda>i. i) [Some example_builtin] [Some example_user] [] =
     ([example_user], [''Overwriting extension /sys/acme.lint with /user/acme.lint.''])"
  by (simp add: scanExtensions_def set_builtin_def set_installed_def set_developed_def
      example_desc_simps overwritingExtension_def)

end
